theory Spec2Isabelle
  imports Main "HOL-Library.Word"
begin

section \<open>Vectorized temporal builtins of expression/builtin\_time\_vec.go\<close>

text \<open>
  The evaluators of \<^verbatim>\<open>builtin_time_vec.go\<close> work on a batch of \<open>n\<close> rows. Each one
  borrows scratch columns from its allocator, has its argument expressions evaluated into
  them, merges the nulls into the result column and then runs a row loop that may stop
  the whole call with an error. The model keeps that shape: the allocator is a state that
  every evaluator returns on every path, the session context carries the warnings, the
  row loop is a recursion over the row indices that stops at the first error.
\<close>

subsection \<open>Machine integers\<close>

type_synonym int64 = "64 word"
type_synonym uint64 = "64 word"

subsection \<open>Temporal values\<close>

record coretime =
  year :: nat
  month :: nat
  day :: nat
  hour :: nat
  minute :: nat
  second :: nat
  microsecond :: nat

datatype timetype = TypeDate | TypeDatetime | TypeTimestamp

record mtime =
  core :: coretime
  tp :: timetype
  fsp :: nat

text \<open>
  Modelled from the spec: \<^verbatim>\<open>types.FromDate\<close> is not in the source file; it builds
  the calendar and clock fields of a temporal value.
\<close>

definition FromDate :: "nat \<Rightarrow> nat \<Rightarrow> nat \<Rightarrow> nat \<Rightarrow> nat \<Rightarrow> nat \<Rightarrow> nat \<Rightarrow> coretime" where
  "FromDate y m d h mi s us =
     \<lparr>year = y, month = m, day = d, hour = h, minute = mi, second = s, microsecond = us\<rparr>"

text \<open>
  Modelled from the spec: \<^verbatim>\<open>Time.IsZero\<close> is not in the source file; the spec's
  \<open>isZero\<close> holds of the literal zero value \<open>0000-00-00\<close>, every field being zero.
\<close>

definition IsZero :: "mtime \<Rightarrow> bool" where
  "IsZero t \<longleftrightarrow>
     year (core t) = 0 \<and> month (core t) = 0 \<and> day (core t) = 0 \<and> hour (core t) = 0 \<and>
     minute (core t) = 0 \<and> second (core t) = 0 \<and> microsecond (core t) = 0"

text \<open>
  Modelled from the spec: \<^verbatim>\<open>Time.InvalidZero\<close> is not in the source file; the spec's
  \<open>isInvalidZero\<close> holds of the zero date and of a date with a zero month or day
  (its example is month 0 with a nonzero year).
\<close>

definition InvalidZero :: "mtime \<Rightarrow> bool" where
  "InvalidZero t \<longleftrightarrow> month (core t) = 0 \<or> day (core t) = 0"

subsection \<open>Errors\<close>

datatype valkind = DateTimeStr | TimeStr

datatype errarg = TimeArg mtime | StrArg string

datatype error =
    AllocationError
  | ArgError nat
  | ErrWrongValue valkind errarg
  | ErrIncorrectArgs string
  | GoTimeError coretime
  | CheckError mtime

subsection \<open>Columns and the null bitmap\<close>

text \<open>
  Modelled from the spec: \<^verbatim>\<open>chunk.Column\<close> is not in the source file. A column holds
  one value per row and a null bitmap; a null row keeps a value in its slot, which the
  evaluators may still read.
\<close>

record 'a column =
  nulls :: "bool list"
  elems :: "'a list"

definition wf_col :: "nat \<Rightarrow> 'a column \<Rightarrow> bool" where
  "wf_col n c \<longleftrightarrow> length (nulls c) = n \<and> length (elems c) = n"

definition IsNull :: "'a column \<Rightarrow> nat \<Rightarrow> bool" where
  "IsNull c i = nulls c ! i"

definition SetNull :: "'a column \<Rightarrow> nat \<Rightarrow> bool \<Rightarrow> 'a column" where
  "SetNull c i b = c\<lparr>nulls := (nulls c)[i := b]\<rparr>"

definition SetElem :: "'a column \<Rightarrow> nat \<Rightarrow> 'a \<Rightarrow> 'a column" where
  "SetElem c i v = c\<lparr>elems := (elems c)[i := v]\<rparr>"

text \<open>
  \<^verbatim>\<open>Resize(n, false)\<close>: exactly \<open>n\<close> rows, none of them null; the slots keep what the
  column held before, and new capacity is zero-initialised.
\<close>

definition Resize :: "'a \<Rightarrow> nat \<Rightarrow> 'a column \<Rightarrow> 'a column" where
  "Resize z n c = \<lparr>nulls = replicate n False, elems = take n (elems c @ replicate n z)\<rparr>"

text \<open>\<^verbatim>\<open>MergeNulls\<close>: a row is null afterwards iff it was null in the column or in the source.\<close>

definition MergeNulls :: "'a column \<Rightarrow> 'b column \<Rightarrow> 'a column" where
  "MergeNulls c src = c\<lparr>nulls := map2 (\<or>) (nulls c) (nulls src)\<rparr>"

subsection \<open>The session context and the invalid-time policy\<close>

text \<open>
  Modelled from the spec: the session context is not in the source file. It carries the
  SQL-mode flags, read-only for the evaluators, and the warning sink.
\<close>

record sessionctx =
  noZeroDate :: bool
  strictMode :: bool
  warnings :: "error list"

definition HasNoZeroDateMode :: "sessionctx \<Rightarrow> bool" where
  "HasNoZeroDateMode ctx = noZeroDate ctx"

text \<open>
  Modelled from the spec: \<^verbatim>\<open>handleInvalidTimeError\<close> is not in the source file. The
  spec gives it the outcomes Fatal and WarnAndNull, chosen from the session's mode flags:
  Fatal hands the error back to the evaluator, WarnAndNull appends it to the warning sink
  and returns no error.
\<close>

definition handleInvalidTimeError :: "sessionctx \<Rightarrow> error \<Rightarrow> error + sessionctx" where
  "handleInvalidTimeError ctx err =
     (if strictMode ctx then Inl err
      else Inr (ctx\<lparr>warnings := warnings ctx @ [err]\<rparr>))"

subsection \<open>The scratch buffer allocator\<close>

text \<open>
  Modelled from the spec: the allocator behind \<^verbatim>\<open>b.bufAllocator\<close> is not in the source
  file. \<open>get\<close> lends a buffer, failing only when the resource is exhausted; \<open>put\<close> takes
  one back. The state records the buffers that are on loan.
\<close>

record bufAllocator =
  lent :: "nat list"
  fresh :: nat
  limit :: nat

definition get :: "bufAllocator \<Rightarrow> error + (nat \<times> bufAllocator)" where
  "get al =
     (if limit al \<le> length (lent al) then Inl AllocationError
      else Inr (fresh al, al\<lparr>lent := fresh al # lent al, fresh := Suc (fresh al)\<rparr>))"

definition put :: "bufAllocator \<Rightarrow> nat \<Rightarrow> bufAllocator" where
  "put al buf = al\<lparr>lent := remove1 buf (lent al)\<rparr>"

subsection \<open>The row loop\<close>

text \<open>
  \<^verbatim>\<open>for i := 0; i < n; i++ { ... }\<close> with \<^verbatim>\<open>return err\<close> inside: the body runs on the
  row indices in order and the first error ends the call.
\<close>

fun for_rows :: "(nat \<Rightarrow> 's \<Rightarrow> error + 's) \<Rightarrow> nat list \<Rightarrow> 's \<Rightarrow> error + 's" where
  "for_rows body [] s = Inr s"
| "for_rows body (i # rest) s =
     (case body i s of Inl err \<Rightarrow> Inl err | Inr s' \<Rightarrow> for_rows body rest s')"

subsection \<open>MONTH and YEAR\<close>

definition builtinMonthSig_row ::
  "mtime list \<Rightarrow> nat \<Rightarrow> sessionctx \<times> int64 column \<Rightarrow> error + (sessionctx \<times> int64 column)" where
  "builtinMonthSig_row ds i s =
     (case s of (ctx, result) \<Rightarrow>
        if IsNull result i then Inr (ctx, result)
        else if IsZero (ds ! i) then
          (if HasNoZeroDateMode ctx then
             (case handleInvalidTimeError ctx (ErrWrongValue DateTimeStr (TimeArg (ds ! i))) of
                Inl err \<Rightarrow> Inl err
              | Inr ctx' \<Rightarrow> Inr (ctx', SetNull result i True))
           else Inr (ctx, SetElem result i 0))
        else Inr (ctx, SetElem result i (of_nat (month (core (ds ! i))))))"

definition builtinMonthSig_vecEvalInt ::
  "sessionctx \<Rightarrow> bufAllocator \<Rightarrow> nat \<Rightarrow> (error + mtime column) \<Rightarrow> int64 column \<Rightarrow>
     bufAllocator \<times> (error + (sessionctx \<times> int64 column))" where
  "builtinMonthSig_vecEvalInt ctx al n arg0 result =
     (case get al of
        Inl err \<Rightarrow> (al, Inl err)
      | Inr (buf, al') \<Rightarrow>
          (put al' buf,
           case arg0 of
             Inl err \<Rightarrow> Inl err
           | Inr b \<Rightarrow>
               for_rows (builtinMonthSig_row (elems b)) [0..<n]
                 (ctx, MergeNulls (Resize 0 n result) b)))"

definition builtinYearSig_row ::
  "mtime list \<Rightarrow> nat \<Rightarrow> sessionctx \<times> int64 column \<Rightarrow> error + (sessionctx \<times> int64 column)" where
  "builtinYearSig_row ds i s =
     (case s of (ctx, result) \<Rightarrow>
        if IsNull result i then Inr (ctx, result)
        else if IsZero (ds ! i) then
          (if HasNoZeroDateMode ctx then
             (case handleInvalidTimeError ctx (ErrWrongValue DateTimeStr (TimeArg (ds ! i))) of
                Inl err \<Rightarrow> Inl err
              | Inr ctx' \<Rightarrow> Inr (ctx', SetNull result i True))
           else Inr (ctx, SetElem result i 0))
        else Inr (ctx, SetElem result i (of_nat (year (core (ds ! i))))))"

definition builtinYearSig_vecEvalInt ::
  "sessionctx \<Rightarrow> bufAllocator \<Rightarrow> nat \<Rightarrow> (error + mtime column) \<Rightarrow> int64 column \<Rightarrow>
     bufAllocator \<times> (error + (sessionctx \<times> int64 column))" where
  "builtinYearSig_vecEvalInt ctx al n arg0 result =
     (case get al of
        Inl err \<Rightarrow> (al, Inl err)
      | Inr (buf, al') \<Rightarrow>
          (put al' buf,
           case arg0 of
             Inl err \<Rightarrow> Inl err
           | Inr b \<Rightarrow>
               for_rows (builtinYearSig_row (elems b)) [0..<n]
                 (ctx, MergeNulls (Resize 0 n result) b)))"

subsection \<open>YEARWEEK\<close>

text \<open>
  \<^verbatim>\<open>Time.YearWeek(mode)\<close> is not in the source file; the evaluators take it as the
  parameter \<open>YearWeek\<close>, which returns the year and the week as Go \<^verbatim>\<open>int\<close>s (64 bits).
  \<^verbatim>\<open>week + year*100\<close> wraps around, and a negative sum is replaced by
  \<^verbatim>\<open>math.MaxUint32\<close>.
\<close>

definition MaxUint32 :: int64 where
  "MaxUint32 = 4294967295"

definition builtinYearWeekWithoutModeSig_row ::
  "(coretime \<Rightarrow> int64 \<Rightarrow> int64 \<times> int64) \<Rightarrow> mtime list \<Rightarrow> nat \<Rightarrow>
     sessionctx \<times> int64 column \<Rightarrow> error + (sessionctx \<times> int64 column)" where
  "builtinYearWeekWithoutModeSig_row YearWeek ds i s =
     (case s of (ctx, result) \<Rightarrow>
        if IsNull result i then Inr (ctx, result)
        else
          let date = ds ! i in
          if InvalidZero date then
            (case handleInvalidTimeError ctx (ErrWrongValue DateTimeStr (TimeArg date)) of
               Inl err \<Rightarrow> Inl err
             | Inr ctx' \<Rightarrow> Inr (ctx', SetNull result i True))
          else
            (case YearWeek (core date) 0 of (yr, week) \<Rightarrow>
               let v = week + yr * 100 in
               Inr (ctx, SetElem result i (if v <s 0 then MaxUint32 else v))))"

definition builtinYearWeekWithoutModeSig_vecEvalInt ::
  "(coretime \<Rightarrow> int64 \<Rightarrow> int64 \<times> int64) \<Rightarrow> sessionctx \<Rightarrow> bufAllocator \<Rightarrow> nat \<Rightarrow>
     (error + mtime column) \<Rightarrow> int64 column \<Rightarrow>
     bufAllocator \<times> (error + (sessionctx \<times> int64 column))" where
  "builtinYearWeekWithoutModeSig_vecEvalInt YearWeek ctx al n arg0 result =
     (case get al of
        Inl err \<Rightarrow> (al, Inl err)
      | Inr (buf, al') \<Rightarrow>
          (put al' buf,
           case arg0 of
             Inl err \<Rightarrow> Inl err
           | Inr b \<Rightarrow>
               for_rows (builtinYearWeekWithoutModeSig_row YearWeek (elems b)) [0..<n]
                 (ctx, MergeNulls (Resize 0 n result) b)))"

text \<open>
  The two-argument evaluator tests \<^verbatim>\<open>date.IsZero()\<close>, reads the mode slot before it
  looks at the mode's null bit, and merges only the nulls of the date column. It has no
  \<^verbatim>\<open>defer b.bufAllocator.put\<close> for either buffer.
\<close>

definition builtinYearWeekWithModeSig_row ::
  "(coretime \<Rightarrow> int64 \<Rightarrow> int64 \<times> int64) \<Rightarrow> mtime list \<Rightarrow> int64 column \<Rightarrow> nat \<Rightarrow>
     sessionctx \<times> int64 column \<Rightarrow> error + (sessionctx \<times> int64 column)" where
  "builtinYearWeekWithModeSig_row YearWeek ds buf2 i s =
     (case s of (ctx, result) \<Rightarrow>
        if IsNull result i then Inr (ctx, result)
        else
          let date = ds ! i in
          if IsZero date then
            (case handleInvalidTimeError ctx (ErrWrongValue DateTimeStr (TimeArg date)) of
               Inl err \<Rightarrow> Inl err
             | Inr ctx' \<Rightarrow> Inr (ctx', SetNull result i True))
          else
            let mode = elems buf2 ! i;
                mode = (if IsNull buf2 i then 0 else mode) in
            (case YearWeek (core date) mode of (yr, week) \<Rightarrow>
               let v = week + yr * 100 in
               Inr (ctx, SetElem result i (if v <s 0 then MaxUint32 else v))))"

definition builtinYearWeekWithModeSig_vecEvalInt ::
  "(coretime \<Rightarrow> int64 \<Rightarrow> int64 \<times> int64) \<Rightarrow> sessionctx \<Rightarrow> bufAllocator \<Rightarrow> nat \<Rightarrow>
     (error + mtime column) \<Rightarrow> (error + int64 column) \<Rightarrow> int64 column \<Rightarrow>
     bufAllocator \<times> (error + (sessionctx \<times> int64 column))" where
  "builtinYearWeekWithModeSig_vecEvalInt YearWeek ctx al n arg0 arg1 result =
     (case get al of
        Inl err \<Rightarrow> (al, Inl err)
      | Inr (buf1, al1) \<Rightarrow>
          (case arg0 of
             Inl err \<Rightarrow> (al1, Inl err)
           | Inr b1 \<Rightarrow>
               (case get al1 of
                  Inl err \<Rightarrow> (al1, Inl err)
                | Inr (buf2, al2) \<Rightarrow>
                    (case arg1 of
                       Inl err \<Rightarrow> (al2, Inl err)
                     | Inr b2 \<Rightarrow>
                         (al2,
                          for_rows (builtinYearWeekWithModeSig_row YearWeek (elems b1) b2) [0..<n]
                            (ctx, MergeNulls (Resize 0 n result) b1))))))"

subsection \<open>Names used in the statements\<close>

text \<open>A row keeps its length, null bit and value from one column to another.\<close>

definition same_row :: "nat \<Rightarrow> 'a column \<Rightarrow> 'a column \<Rightarrow> bool" where
  "same_row i c c' \<longleftrightarrow>
     length (nulls c') = length (nulls c) \<and> length (elems c') = length (elems c) \<and>
     nulls c' ! i = nulls c ! i \<and> elems c' ! i = elems c ! i"

text \<open>The value both YEARWEEK loops store: \<^verbatim>\<open>week + year*100\<close>, or \<^verbatim>\<open>math.MaxUint32\<close> when that is negative.\<close>

definition yearweek_value :: "int64 \<times> int64 \<Rightarrow> int64" where
  "yearweek_value yw = (case yw of (yr, week) \<Rightarrow>
      if week + yr * 100 <s 0 then MaxUint32 else week + yr * 100)"

subsection \<open>Concrete inputs\<close>

definition date_2024_01_01 :: mtime where
  "date_2024_01_01 = \<lparr>core = FromDate 2024 1 1 0 0 0 0, tp = TypeDate, fsp = 0\<rparr>"

definition ctx_default :: sessionctx where
  "ctx_default = \<lparr>noZeroDate = False, strictMode = False, warnings = []\<rparr>"

definition empty_col :: "int64 column" where
  "empty_col = \<lparr>nulls = [], elems = []\<rparr>"

definition pool4 :: bufAllocator where
  "pool4 = \<lparr>lent = [], fresh = 0, limit = 4\<rparr>"

text \<open>A stand-in for \<^verbatim>\<open>Time.YearWeek\<close>: week 1 of the date's year in mode 0, a negative year otherwise.\<close>

definition yw_sample :: "coretime \<Rightarrow> int64 \<Rightarrow> int64 \<times> int64" where
  "yw_sample t m = (if m = 0 then (of_nat (year t), 1) else (- 1, 52))"

subsection \<open>Zero-date inputs\<close>

definition zero_date :: mtime where
  "zero_date = \<lparr>core = FromDate 0 0 0 0 0 0 0, tp = TypeDate, fsp = 0\<rparr>"

definition ctx_no_zero_date :: sessionctx where
  "ctx_no_zero_date = \<lparr>noZeroDate = True, strictMode = False, warnings = []\<rparr>"

definition ctx_strict :: sessionctx where
  "ctx_strict = \<lparr>noZeroDate = True, strictMode = True, warnings = []\<rparr>"

definition zero_col :: "mtime column" where
  "zero_col = \<lparr>nulls = [False], elems = [zero_date]\<rparr>"

subsection \<open>PERIOD\_ADD and PERIOD\_DIFF\<close>

text \<open>
  Modelled from the spec: \<^verbatim>\<open>validPeriod\<close> is not in the source file. The spec's validity
  check accepts a period of the fixed YYYYMM or YYMM shape: a non-negative integer of at
  most six digits whose last two digits are a month from 01 to 12.
\<close>

definition validPeriod :: "int64 \<Rightarrow> bool" where
  "validPeriod p \<longleftrightarrow>
     0 \<le> sint p \<and> sint p \<le> 999999 \<and> 1 \<le> sint p mod 100 \<and> sint p mod 100 \<le> 12"

text \<open>
  Modelled from the spec: \<^verbatim>\<open>period2Month\<close> is not in the source file. A period encodes
  YYYYMM or YYMM: the last two digits are the month, the digits before them the year, and a
  two-digit year is widened by the spec's rule for two-digit years (0 to 69 add 2000, 70 to
  99 add 1900). The month index counts months from year 0.
\<close>

definition period2Month :: "uint64 \<Rightarrow> uint64" where
  "period2Month period =
     (let yr = period div 100; mon = period mod 100;
          yr = (if yr < 70 then yr + 2000 else if yr < 100 then yr + 1900 else yr)
      in yr * 12 + mon - 1)"

text \<open>
  Modelled from the spec: \<^verbatim>\<open>month2Period\<close> is not in the source file. It turns a month
  index back into the period YYYYMM.
\<close>

definition month2Period :: "uint64 \<Rightarrow> uint64" where
  "month2Period mon = (mon div 12) * 100 + mon mod 12 + 1"

text \<open>
  \<^verbatim>\<open>builtinPeriodAddSig.vecEvalInt\<close> evaluates its first argument into the result column
  itself, merges the nulls of the second and checks only the period. The conversions
  \<^verbatim>\<open>uint64(...)\<close> and \<^verbatim>\<open>int64(...)\<close> keep the 64 bits.
\<close>

definition builtinPeriodAddSig_row :: "int64 list \<Rightarrow> nat \<Rightarrow> int64 column \<Rightarrow> error + int64 column" where
  "builtinPeriodAddSig_row ns i result =
     (if IsNull result i then Inr result
      else if \<not> validPeriod (elems result ! i) then Inl (ErrIncorrectArgs ''period_add'')
      else
        let sumMonth = period2Month (elems result ! i) + ns ! i
        in Inr (SetElem result i (month2Period sumMonth)))"

definition builtinPeriodAddSig_vecEvalInt ::
  "bufAllocator \<Rightarrow> nat \<Rightarrow> (error + int64 column) \<Rightarrow> (error + int64 column) \<Rightarrow>
     bufAllocator \<times> (error + int64 column)" where
  "builtinPeriodAddSig_vecEvalInt al n arg0 arg1 =
     (case arg0 of
        Inl err \<Rightarrow> (al, Inl err)
      | Inr result \<Rightarrow>
          (case get al of
             Inl err \<Rightarrow> (al, Inl err)
           | Inr (buf, al') \<Rightarrow>
               (put al' buf,
                case arg1 of
                  Inl err \<Rightarrow> Inl err
                | Inr b \<Rightarrow> for_rows (builtinPeriodAddSig_row (elems b)) [0..<n] (MergeNulls result b))))"

definition builtinPeriodDiffSig_row :: "int64 list \<Rightarrow> nat \<Rightarrow> int64 column \<Rightarrow> error + int64 column" where
  "builtinPeriodDiffSig_row periods i result =
     (if IsNull result i then Inr result
      else if \<not> validPeriod (elems result ! i) \<or> \<not> validPeriod (periods ! i)
        then Inl (ErrIncorrectArgs ''period_diff'')
      else Inr (SetElem result i (period2Month (elems result ! i) - period2Month (periods ! i))))"

definition builtinPeriodDiffSig_vecEvalInt ::
  "bufAllocator \<Rightarrow> nat \<Rightarrow> (error + int64 column) \<Rightarrow> (error + int64 column) \<Rightarrow>
     bufAllocator \<times> (error + int64 column)" where
  "builtinPeriodDiffSig_vecEvalInt al n arg0 arg1 =
     (case arg0 of
        Inl err \<Rightarrow> (al, Inl err)
      | Inr result \<Rightarrow>
          (case get al of
             Inl err \<Rightarrow> (al, Inl err)
           | Inr (buf, al') \<Rightarrow>
               (put al' buf,
                case arg1 of
                  Inl err \<Rightarrow> Inl err
                | Inr b \<Rightarrow> for_rows (builtinPeriodDiffSig_row (elems b)) [0..<n] (MergeNulls result b))))"

subsection \<open>Period inputs\<close>

definition periods_one_null :: "int64 column" where
  "periods_one_null = \<lparr>nulls = [True, False], elems = [13, 202401]\<rparr>"

definition periods_one_invalid :: "int64 column" where
  "periods_one_invalid = \<lparr>nulls = [True, False], elems = [13, 202413]\<rparr>"

definition periods_second :: "int64 column" where
  "periods_second = \<lparr>nulls = [False, False], elems = [1, 202312]\<rparr>"

definition deltas :: "int64 column" where
  "deltas = \<lparr>nulls = [False, False], elems = [7, - 5]\<rparr>"

subsection \<open>The calendar\<close>

text \<open>
  Modelled from the spec: the calendar routines of the \<^verbatim>\<open>types\<close> package are not in the
  source file. The model is the proleptic Gregorian calendar with day numbers: day 366 is
  0001-01-01, and the zero date has day number 0.
\<close>

definition leap_year :: "nat \<Rightarrow> bool" where
  "leap_year y \<longleftrightarrow> y mod 4 = 0 \<and> (y mod 100 \<noteq> 0 \<or> y mod 400 = 0)"

definition days_in_year :: "nat \<Rightarrow> nat" where
  "days_in_year y = (if leap_year y then 366 else 365)"

definition days_in_month :: "nat \<Rightarrow> nat \<Rightarrow> nat" where
  "days_in_month y m =
     (if m = 2 then (if leap_year y then 29 else 28)
      else if m = 4 \<or> m = 6 \<or> m = 9 \<or> m = 11 then 30 else 31)"

definition days_before_month :: "nat \<Rightarrow> nat \<Rightarrow> nat" where
  "days_before_month y m = sum_list (map (days_in_month y) [1..<m])"

definition daynr_jan1 :: "nat \<Rightarrow> nat" where
  "daynr_jan1 y = 365 * y + (y - 1) div 4 + (y - 1) div 400 + 1 - (y - 1) div 100"

definition daynr :: "coretime \<Rightarrow> nat" where
  "daynr t =
     (if year t = 0 \<and> month t = 0 then 0
      else daynr_jan1 (year t) + days_before_month (year t) (month t) + day t - 1)"

function walk_year :: "nat \<Rightarrow> nat \<Rightarrow> nat \<times> nat" where
  "walk_year y r = (if r < days_in_year y then (y, r) else walk_year (y + 1) (r - days_in_year y))"
  by pat_completeness auto

termination
  by (relation "measure (\<lambda>(y, r). r)") (auto simp: days_in_year_def)

function walk_month :: "nat \<Rightarrow> nat \<Rightarrow> nat \<Rightarrow> nat \<times> nat" where
  "walk_month y m r =
     (if r < days_in_month y m then (m, r) else walk_month y (m + 1) (r - days_in_month y m))"
  by pat_completeness auto

termination
  by (relation "measure (\<lambda>(y, m, r). r)") (auto simp: days_in_month_def)

text \<open>The date with a given day number, for day numbers from 366 on.\<close>

definition date_of_daynr :: "nat \<Rightarrow> coretime" where
  "date_of_daynr n =
     (let y0 = n div 366 in
      case walk_year y0 (n - daynr_jan1 y0) of (y, r) \<Rightarrow>
      case walk_month y 1 r of (m, r') \<Rightarrow> FromDate y m (r' + 1) 0 0 0 0)"

subsection \<open>WEEKDAY and DAYNAME\<close>

text \<open>
  Modelled from the spec: \<^verbatim>\<open>Time.Weekday\<close> is not in the source file. It is the
  Sunday-first week index of the date's day: 0 for Sunday up to 6 for Saturday.
\<close>

definition Weekday :: "coretime \<Rightarrow> nat" where
  "Weekday t = (daynr t + 6) mod 7"

definition builtinWeekDaySig_row ::
  "mtime list \<Rightarrow> nat \<Rightarrow> sessionctx \<times> int64 column \<Rightarrow> error + (sessionctx \<times> int64 column)" where
  "builtinWeekDaySig_row ds i s =
     (case s of (ctx, result) \<Rightarrow>
        if IsNull result i then Inr (ctx, result)
        else if IsZero (ds ! i) then
          (case handleInvalidTimeError ctx (ErrWrongValue DateTimeStr (TimeArg (ds ! i))) of
             Inl err \<Rightarrow> Inl err
           | Inr ctx' \<Rightarrow> Inr (ctx', SetNull result i True))
        else Inr (ctx, SetElem result i (of_nat ((Weekday (core (ds ! i)) + 6) mod 7))))"

definition builtinWeekDaySig_vecEvalInt ::
  "sessionctx \<Rightarrow> bufAllocator \<Rightarrow> nat \<Rightarrow> (error + mtime column) \<Rightarrow> int64 column \<Rightarrow>
     bufAllocator \<times> (error + (sessionctx \<times> int64 column))" where
  "builtinWeekDaySig_vecEvalInt ctx al n arg0 result =
     (case get al of
        Inl err \<Rightarrow> (al, Inl err)
      | Inr (buf, al') \<Rightarrow>
          (put al' buf,
           case arg0 of
             Inl err \<Rightarrow> Inl err
           | Inr b \<Rightarrow>
               for_rows (builtinWeekDaySig_row (elems b)) [0..<n]
                 (ctx, MergeNulls (Resize 0 n result) b)))"

text \<open>
  \<^verbatim>\<open>builtinDayNameSig.vecEvalIndex\<close> hands each row to one of two callbacks, which write
  the caller's output: \<open>apply\<close> with the Monday-first index, \<open>applyNull\<close> for a null row.
\<close>

definition builtinDayNameSig_row ::
  "mtime column \<Rightarrow> (nat \<Rightarrow> nat \<Rightarrow> 'o \<Rightarrow> 'o) \<Rightarrow> (nat \<Rightarrow> 'o \<Rightarrow> 'o) \<Rightarrow> nat \<Rightarrow>
     sessionctx \<times> 'o \<Rightarrow> error + (sessionctx \<times> 'o)" where
  "builtinDayNameSig_row buf apply applyNull i s =
     (case s of (ctx, out) \<Rightarrow>
        if IsNull buf i then Inr (ctx, applyNull i out)
        else if InvalidZero (elems buf ! i) then
          (case handleInvalidTimeError ctx (ErrWrongValue DateTimeStr (TimeArg (elems buf ! i))) of
             Inl err \<Rightarrow> Inl err
           | Inr ctx' \<Rightarrow> Inr (ctx', applyNull i out))
        else
          let res = (Weekday (core (elems buf ! i)) + 6) mod 7
          in Inr (ctx, apply i res out))"

definition builtinDayNameSig_vecEvalIndex ::
  "sessionctx \<Rightarrow> bufAllocator \<Rightarrow> nat \<Rightarrow> (error + mtime column) \<Rightarrow>
     (nat \<Rightarrow> nat \<Rightarrow> 'o \<Rightarrow> 'o) \<Rightarrow> (nat \<Rightarrow> 'o \<Rightarrow> 'o) \<Rightarrow> 'o \<Rightarrow>
     bufAllocator \<times> (error + (sessionctx \<times> 'o))" where
  "builtinDayNameSig_vecEvalIndex ctx al n arg0 apply applyNull out =
     (case get al of
        Inl err \<Rightarrow> (al, Inl err)
      | Inr (buf, al') \<Rightarrow>
          (put al' buf,
           case arg0 of
             Inl err \<Rightarrow> Inl err
           | Inr b \<Rightarrow> for_rows (builtinDayNameSig_row b apply applyNull) [0..<n] (ctx, out)))"

definition builtinDayNameSig_vecEvalInt ::
  "sessionctx \<Rightarrow> bufAllocator \<Rightarrow> nat \<Rightarrow> (error + mtime column) \<Rightarrow> int64 column \<Rightarrow>
     bufAllocator \<times> (error + (sessionctx \<times> int64 column))" where
  "builtinDayNameSig_vecEvalInt ctx al n arg0 result =
     builtinDayNameSig_vecEvalIndex ctx al n arg0
       (\<lambda>i res c. SetElem c i (of_nat res)) (\<lambda>i c. SetNull c i True) (Resize 0 n result)"

subsection \<open>MAKEDATE\<close>

definition ZeroDate :: mtime where
  "ZeroDate = \<lparr>core = FromDate 0 0 0 0 0 0 0, tp = TypeDate, fsp = 0\<rparr>"

text \<open>
  Modelled from the spec: \<^verbatim>\<open>types.TimestampDiff\<close> is not in the source file. With the
  unit DAY it is the number of days from the first date to the second.
\<close>

definition TimestampDiff_DAY :: "mtime \<Rightarrow> mtime \<Rightarrow> int64" where
  "TimestampDiff_DAY t1 t2 = of_nat (daynr (core t2)) - of_nat (daynr (core t1))"

text \<open>
  Modelled from the spec: \<^verbatim>\<open>types.TimeFromDays\<close> is not in the source file. It is the
  date with the given day number; a number that is negative or lies before 0001-01-01 is
  no date and gives the zero date, which the evaluator tests with \<^verbatim>\<open>ret.IsZero()\<close>.
\<close>

definition TimeFromDays :: "int64 \<Rightarrow> mtime" where
  "TimeFromDays num =
     (if num <s 0 \<or> unat num < 366 then ZeroDate
      else \<lparr>core = date_of_daynr (unat num), tp = TypeDate, fsp = 0\<rparr>)"

text \<open>
  \<^verbatim>\<open>builtinMakeDateSig.vecEvalTime\<close>. The loop adds the century to \<^verbatim>\<open>years[i]\<close> in
  place; the slot is not read again, so the model keeps the widened year in \<open>yr\<close>.
\<close>

definition builtinMakeDateSig_row ::
  "int64 list \<Rightarrow> int64 list \<Rightarrow> nat \<Rightarrow> sessionctx \<times> mtime column \<Rightarrow>
     error + (sessionctx \<times> mtime column)" where
  "builtinMakeDateSig_row years days i s =
     (case s of (ctx, result) \<Rightarrow>
        if IsNull result i then Inr (ctx, result)
        else if days ! i \<le>s 0 \<or> years ! i <s 0 \<or> 9999 <s years ! i
          then Inr (ctx, SetNull result i True)
        else
          let yr = (if years ! i <s 70 then years ! i + 2000
                    else if years ! i <s 100 then years ! i + 1900 else years ! i);
              startTime = \<lparr>core = FromDate (nat (sint yr)) 1 1 0 0 0 0, tp = TypeDate, fsp = 0\<rparr>;
              retTimestamp = TimestampDiff_DAY ZeroDate startTime
          in
            if retTimestamp = 0 then
              (case handleInvalidTimeError ctx (ErrWrongValue DateTimeStr (TimeArg startTime)) of
                 Inl err \<Rightarrow> Inl err
               | Inr ctx' \<Rightarrow> Inr (ctx', SetNull result i True))
            else
              let ret = TimeFromDays (retTimestamp + days ! i - 1) in
              if IsZero ret \<or> 9999 < year (core ret) then Inr (ctx, SetNull result i True)
              else Inr (ctx, SetElem result i ret))"

definition builtinMakeDateSig_vecEvalTime ::
  "sessionctx \<Rightarrow> bufAllocator \<Rightarrow> nat \<Rightarrow> (error + int64 column) \<Rightarrow> (error + int64 column) \<Rightarrow>
     mtime column \<Rightarrow> bufAllocator \<times> (error + (sessionctx \<times> mtime column))" where
  "builtinMakeDateSig_vecEvalTime ctx al n arg0 arg1 result =
     (case get al of
        Inl err \<Rightarrow> (al, Inl err)
      | Inr (buf1, al1) \<Rightarrow>
          (case arg0 of
             Inl err \<Rightarrow> (put al1 buf1, Inl err)
           | Inr b1 \<Rightarrow>
               (case get al1 of
                  Inl err \<Rightarrow> (put al1 buf1, Inl err)
                | Inr (buf2, al2) \<Rightarrow>
                    (put (put al2 buf2) buf1,
                     case arg1 of
                       Inl err \<Rightarrow> Inl err
                     | Inr b2 \<Rightarrow>
                         for_rows (builtinMakeDateSig_row (elems b1) (elems b2)) [0..<n]
                           (ctx, MergeNulls (MergeNulls (Resize ZeroDate n result) b1) b2)))))"

text \<open>The year MAKEDATE works with: a two-digit year gets its century.\<close>

definition makedate_year :: "int64 \<Rightarrow> nat" where
  "makedate_year y = nat (sint (if y <s 70 then y + 2000 else if y <s 100 then y + 1900 else y))"

text \<open>The day number MAKEDATE hands to \<^verbatim>\<open>TimeFromDays\<close>.\<close>

definition makedate_daynr :: "int64 \<Rightarrow> int64 \<Rightarrow> int64" where
  "makedate_daynr y d = of_nat (daynr (FromDate (makedate_year y) 1 1 0 0 0 0)) + d - 1"

text \<open>What MAKEDATE stores for a row with both arguments non-null; \<open>None\<close> is a null row.\<close>

definition makedate :: "int64 \<Rightarrow> int64 \<Rightarrow> mtime option" where
  "makedate y d =
     (if d \<le>s 0 \<or> y <s 0 \<or> 9999 <s y then None
      else
        let ret = TimeFromDays (makedate_daynr y d)
        in if IsZero ret \<or> 9999 < year (core ret) then None else Some ret)"

subsection \<open>MAKEDATE and WEEKDAY inputs\<close>

definition makedate_years :: "int64 column" where
  "makedate_years = \<lparr>nulls = [False, False], elems = [2024, 2024]\<rparr>"

definition makedate_days :: "int64 column" where
  "makedate_days = \<lparr>nulls = [False, False], elems = [60, 0]\<rparr>"

definition empty_times :: "mtime column" where
  "empty_times = \<lparr>nulls = [], elems = []\<rparr>"

definition date_2024_02_29 :: mtime where
  "date_2024_02_29 = \<lparr>core = FromDate 2024 2 29 0 0 0 0, tp = TypeDate, fsp = 0\<rparr>"

definition col_2024_01_01 :: "mtime column" where
  "col_2024_01_01 = \<lparr>nulls = [False], elems = [date_2024_01_01]\<rparr>"

(* DEFINITIONS END *)

section \<open>Properties\<close>

lemmas sample_defs = date_2024_01_01_def ctx_default_def empty_col_def pool4_def yw_sample_def
  FromDate_def

lemmas eval_defs = get_def put_def Resize_def MergeNulls_def IsNull_def SetNull_def SetElem_def
  IsZero_def InvalidZero_def HasNoZeroDateMode_def handleInvalidTimeError_def wf_col_def
  upt_conv_Cons Let_def

subsection \<open>The row loop touches one row at a time\<close>


lemma for_rows_frame:
  assumes "for_rows body rs s = Inr s'" and "R s" and "i \<in> set rs" and "distinct rs"
    and "\<And>j t t'. j \<noteq> i \<Longrightarrow> body j t = Inr t' \<Longrightarrow> R t \<Longrightarrow> R t'"
    and "\<And>j t t'. j \<noteq> i \<Longrightarrow> body j t = Inr t' \<Longrightarrow> Q t \<Longrightarrow> Q t'"
    and "\<And>t t'. R t \<Longrightarrow> body i t = Inr t' \<Longrightarrow> Q t'"
  shows "Q s'"
  using assms(1-4)
proof (induction rs arbitrary: s)
  case Nil
  then show ?case by simp
next
  case (Cons j rest)
  from Cons.prems(1) obtain t where step: "body j s = Inr t" and run: "for_rows body rest t = Inr s'"
    by (auto split: sum.splits)
  show ?case
  proof (cases "j = i")
    case True
    with Cons.prems step have Qt: "Q t" using assms(7) by blast
    from True Cons.prems(4) have notin: "i \<notin> set rest" by simp
    have "\<And>u. for_rows body rest u = Inr s' \<Longrightarrow> i \<notin> set rest \<Longrightarrow> Q u \<Longrightarrow> Q s'"
    proof (induction rest)
      case Nil
      then show ?case by simp
    next
      case (Cons k rest)
      from Cons.prems(1) obtain w where kw: "body k u = Inr w" and rw: "for_rows body rest w = Inr s'"
        by (auto split: sum.splits)
      from Cons.prems(2) have "k \<noteq> i" "i \<notin> set rest" by auto
      with kw Cons.prems(3) have "Q w" using assms(6) by blast
      with Cons.IH rw \<open>i \<notin> set rest\<close> show ?case by blast
    qed
    with run notin Qt show ?thesis by blast
  next
    case False
    with step Cons.prems(2) have "R t" using assms(5) by blast
    moreover from False Cons.prems(3) have "i \<in> set rest" by simp
    moreover from Cons.prems(4) have "distinct rest" by simp
    ultimately show ?thesis using Cons.IH run by blast
  qed
qed


lemma wf_col_init: "wf_col n b \<Longrightarrow> wf_col n (MergeNulls (Resize z n r) b)"
  by (simp add: wf_col_def MergeNulls_def Resize_def)

lemma nulls_init:
  "wf_col n b \<Longrightarrow> i < n \<Longrightarrow> nulls (MergeNulls (Resize z n r) b) ! i = nulls b ! i"
  by (simp add: wf_col_def MergeNulls_def Resize_def)

lemma same_row_refl: "same_row i c c"
  by (simp add: same_row_def)

lemma same_row_SetNull: "j \<noteq> i \<Longrightarrow> same_row i c (SetNull c j b)"
  by (simp add: same_row_def SetNull_def)

lemma same_row_SetElem: "j \<noteq> i \<Longrightarrow> same_row i c (SetElem c j v)"
  by (simp add: same_row_def SetElem_def)

lemmas same_row_intros = same_row_refl same_row_SetNull same_row_SetElem

lemma for_rows_row:
  assumes run: "for_rows body [0..<n] (ctx, c) = Inr (ctx', c')"
    and i: "i < n" and wf: "wf_col n c" and I0: "I ctx"
    and frame: "\<And>j x d x' d'. body j (x, d) = Inr (x', d') \<Longrightarrow> j \<noteq> i \<Longrightarrow> same_row i d d'"
    and inv: "\<And>j x d x' d'. body j (x, d) = Inr (x', d') \<Longrightarrow> I x \<Longrightarrow> I x'"
    and mono: "\<And>j x d x' d'. body j (x, d) = Inr (x', d') \<Longrightarrow> W x \<Longrightarrow> W x'"
    and at: "\<And>x d x' d'. body i (x, d) = Inr (x', d') \<Longrightarrow> I x \<Longrightarrow>
               i < length (nulls d) \<Longrightarrow> i < length (elems d) \<Longrightarrow>
               nulls d ! i = nulls c ! i \<Longrightarrow> elems d ! i = elems c ! i \<Longrightarrow>
               W x' \<and> G (nulls d' ! i) (elems d' ! i)"
  shows "W ctx' \<and> G (nulls c' ! i) (elems c' ! i)"
proof -
  let ?R = "\<lambda>t. I (fst t) \<and> same_row i c (snd t)"
  let ?Q = "\<lambda>t. W (fst t) \<and> G (nulls (snd t) ! i) (elems (snd t) ! i)"
  have "?Q (ctx', c')"
  proof (rule for_rows_frame [where R = ?R and Q = ?Q and i = i, OF run])
    show "?R (ctx, c)" using I0 by (simp add: same_row_def)
    show "i \<in> set [0..<n]" using i by simp
    show "distinct [0..<n]" by simp
  next
    fix j t t' assume h: "j \<noteq> i" "body j t = Inr t'" "?R t"
    from h(2) have b: "body j (fst t, snd t) = Inr (fst t', snd t')" by simp
    from frame [OF b h(1)] inv [OF b] h(3) show "?R t'"
      by (simp add: same_row_def)
  next
    fix j t t' assume h: "j \<noteq> i" "body j t = Inr t'" "?Q t"
    from h(2) have b: "body j (fst t, snd t) = Inr (fst t', snd t')" by simp
    from frame [OF b h(1)] mono [OF b] h(3) show "?Q t'"
      by (simp add: same_row_def)
  next
    fix t t' assume h: "?R t" "body i t = Inr t'"
    from h(2) have b: "body i (fst t, snd t) = Inr (fst t', snd t')" by simp
    from h(1) wf i have "i < length (nulls (snd t))" "i < length (elems (snd t))"
      "nulls (snd t) ! i = nulls c ! i" "elems (snd t) ! i = elems c ! i" "I (fst t)"
      by (simp_all add: same_row_def wf_col_def)
    with at [OF b] show "?Q t'" by simp
  qed
  then show ?thesis by simp
qed


subsection \<open>YEARWEEK\<close>

lemma YearWeekWithoutMode_row_frame:
  "builtinYearWeekWithoutModeSig_row YW ds j (ctx, c) = Inr (ctx', c') \<Longrightarrow> j \<noteq> i \<Longrightarrow> same_row i c c'"
  by (auto simp: builtinYearWeekWithoutModeSig_row_def Let_def same_row_intros
      split: if_splits sum.splits prod.splits)

lemma YearWeekWithMode_row_frame:
  "builtinYearWeekWithModeSig_row YW ds b2 j (ctx, c) = Inr (ctx', c') \<Longrightarrow> j \<noteq> i \<Longrightarrow> same_row i c c'"
  by (auto simp: builtinYearWeekWithModeSig_row_def Let_def same_row_intros
      split: if_splits sum.splits prod.splits)

lemma clamp_nonneg: "0 \<le> sint (if v <s 0 then MaxUint32 else (v::int64))"
  by (simp add: word_sless_alt MaxUint32_def)

lemma YearWeekWithoutMode_rows_at:
  assumes run: "for_rows (builtinYearWeekWithoutModeSig_row YW ds) [0..<n] (ctx, c) = Inr (ctx', c')"
    and wf: "wf_col n c" and i: "i < n" and nn: "\<not> nulls c ! i" and valid: "\<not> InvalidZero (ds ! i)"
  shows "\<not> nulls c' ! i \<and> elems c' ! i = yearweek_value (YW (core (ds ! i)) 0)"
proof -
  have "True \<and> (\<lambda>nl v. \<not> nl \<and> v = yearweek_value (YW (core (ds ! i)) 0)) (nulls c' ! i) (elems c' ! i)"
  proof (rule for_rows_row [where I = "\<lambda>_. True" and W = "\<lambda>_. True", OF run i wf])
    fix x d x' d'
    assume "builtinYearWeekWithoutModeSig_row YW ds i (x, d) = Inr (x', d')"
      "i < length (nulls d)" "i < length (elems d)" "nulls d ! i = nulls c ! i"
    with nn valid show "True \<and> \<not> nulls d' ! i \<and> elems d' ! i = yearweek_value (YW (core (ds ! i)) 0)"
      by (auto simp: builtinYearWeekWithoutModeSig_row_def Let_def IsNull_def SetElem_def
          yearweek_value_def split: if_splits sum.splits prod.splits)
  qed (auto intro: YearWeekWithoutMode_row_frame)
  then show ?thesis by simp
qed

lemma YearWeekWithMode_rows_at:
  assumes run: "for_rows (builtinYearWeekWithModeSig_row YW ds b2) [0..<n] (ctx, c) = Inr (ctx', c')"
    and wf: "wf_col n c" and i: "i < n" and nn: "\<not> nulls c ! i" and valid: "\<not> IsZero (ds ! i)"
  shows "\<not> nulls c' ! i \<and>
     elems c' ! i = yearweek_value (YW (core (ds ! i)) (if nulls b2 ! i then 0 else elems b2 ! i))"
proof -
  let ?v = "yearweek_value (YW (core (ds ! i)) (if nulls b2 ! i then 0 else elems b2 ! i))"
  have "True \<and> (\<lambda>nl v. \<not> nl \<and> v = ?v) (nulls c' ! i) (elems c' ! i)"
  proof (rule for_rows_row [where I = "\<lambda>_. True" and W = "\<lambda>_. True", OF run i wf])
    fix x d x' d'
    assume "builtinYearWeekWithModeSig_row YW ds b2 i (x, d) = Inr (x', d')"
      "i < length (nulls d)" "i < length (elems d)" "nulls d ! i = nulls c ! i"
    with nn valid show "True \<and> \<not> nulls d' ! i \<and> elems d' ! i = ?v"
      by (auto simp: builtinYearWeekWithModeSig_row_def Let_def IsNull_def SetElem_def
          yearweek_value_def split: if_splits sum.splits prod.splits)
  qed (auto intro: YearWeekWithMode_row_frame)
  then show ?thesis by simp
qed

lemma InvalidZero_of_IsZero: "IsZero t \<Longrightarrow> InvalidZero t"
  by (simp add: IsZero_def InvalidZero_def)

text \<open>
  C5: for a row whose date is non-null and not invalid-zero, whatever \<^verbatim>\<open>YearWeek\<close> returns
  and whatever the mode is, both YEARWEEK evaluators store a non-negative value: the sum
  \<^verbatim>\<open>week + year*100\<close>, computed in 64 bits, or \<open>2^32 - 1\<close> when that sum is negative.
\<close>

theorem yearweek_nonnegative:
  assumes "wf_col n b1" and "i < n" and "\<not> nulls b1 ! i" and "\<not> InvalidZero (elems b1 ! i)"
  shows "(snd (builtinYearWeekWithoutModeSig_vecEvalInt YW ctx al n (Inr b1) result) = Inr (ctx', res')
           \<longrightarrow> \<not> nulls res' ! i \<and> 0 \<le> sint (elems res' ! i) \<and>
               elems res' ! i = (case YW (core (elems b1 ! i)) 0 of (yr, week) \<Rightarrow>
                  if week + yr * 100 <s 0 then 4294967295 else week + yr * 100))
       \<and> (snd (builtinYearWeekWithModeSig_vecEvalInt YW ctx al n (Inr b1) (Inr b2) result) = Inr (ctx'', res'')
           \<longrightarrow> \<not> nulls res'' ! i \<and> 0 \<le> sint (elems res'' ! i) \<and>
               elems res'' ! i =
                 (case YW (core (elems b1 ! i)) (if nulls b2 ! i then 0 else elems b2 ! i) of (yr, week) \<Rightarrow>
                  if week + yr * 100 <s 0 then 4294967295 else week + yr * 100))"
proof (intro conjI impI)
  assume a: "snd (builtinYearWeekWithoutModeSig_vecEvalInt YW ctx al n (Inr b1) result) = Inr (ctx', res')"
  then have run: "for_rows (builtinYearWeekWithoutModeSig_row YW (elems b1)) [0..<n]
      (ctx, MergeNulls (Resize 0 n result) b1) = Inr (ctx', res')"
    by (auto simp: builtinYearWeekWithoutModeSig_vecEvalInt_def split: sum.splits prod.splits)
  have r: "\<not> nulls res' ! i \<and> elems res' ! i = yearweek_value (YW (core (elems b1 ! i)) 0)"
    using YearWeekWithoutMode_rows_at [OF run wf_col_init [OF assms(1)] assms(2)] assms
    by (simp add: nulls_init)
  then show "\<not> nulls res' ! i" by simp
  from r show "0 \<le> sint (elems res' ! i)"
    using clamp_nonneg by (simp add: yearweek_value_def split: prod.splits)
  from r show "elems res' ! i = (case YW (core (elems b1 ! i)) 0 of (yr, week) \<Rightarrow>
                  if week + yr * 100 <s 0 then 4294967295 else week + yr * 100)"
    by (simp add: yearweek_value_def MaxUint32_def split: prod.splits)
next
  assume a: "snd (builtinYearWeekWithModeSig_vecEvalInt YW ctx al n (Inr b1) (Inr b2) result) = Inr (ctx'', res'')"
  then have run: "for_rows (builtinYearWeekWithModeSig_row YW (elems b1) b2) [0..<n]
      (ctx, MergeNulls (Resize 0 n result) b1) = Inr (ctx'', res'')"
    by (auto simp: builtinYearWeekWithModeSig_vecEvalInt_def split: sum.splits prod.splits)
  from assms(4) have nz: "\<not> IsZero (elems b1 ! i)" using InvalidZero_of_IsZero by blast
  have r: "\<not> nulls res'' ! i \<and> elems res'' ! i =
      yearweek_value (YW (core (elems b1 ! i)) (if nulls b2 ! i then 0 else elems b2 ! i))"
    using YearWeekWithMode_rows_at [OF run wf_col_init [OF assms(1)] assms(2) _ nz] assms
    by (simp add: nulls_init)
  then show "\<not> nulls res'' ! i" by simp
  from r show "0 \<le> sint (elems res'' ! i)"
    using clamp_nonneg by (simp add: yearweek_value_def split: prod.splits)
  from r show "elems res'' ! i =
                 (case YW (core (elems b1 ! i)) (if nulls b2 ! i then 0 else elems b2 ! i) of (yr, week) \<Rightarrow>
                  if week + yr * 100 <s 0 then 4294967295 else week + yr * 100)"
    by (simp add: yearweek_value_def MaxUint32_def split: prod.splits)
qed

theorem yearweek_nonnegative_witness:
  "wf_col 1 \<lparr>nulls = [False], elems = [date_2024_01_01]\<rparr> \<and> (0::nat) < 1 \<and>
   \<not> nulls \<lparr>nulls = [False], elems = [date_2024_01_01]\<rparr> ! 0 \<and>
   \<not> InvalidZero (elems \<lparr>nulls = [False], elems = [date_2024_01_01]\<rparr> ! 0) \<and>
   snd (builtinYearWeekWithoutModeSig_vecEvalInt yw_sample ctx_default pool4 1
      (Inr \<lparr>nulls = [False], elems = [date_2024_01_01]\<rparr>) empty_col)
     = Inr (ctx_default, \<lparr>nulls = [False], elems = [202401]\<rparr>) \<and>
   snd (builtinYearWeekWithModeSig_vecEvalInt yw_sample ctx_default pool4 1
      (Inr \<lparr>nulls = [False], elems = [date_2024_01_01]\<rparr>) (Inr \<lparr>nulls = [False], elems = [3]\<rparr>) empty_col)
     = Inr (ctx_default, \<lparr>nulls = [False], elems = [4294967295]\<rparr>) \<and>
   0 \<le> sint (elems \<lparr>nulls = [False], elems = [202401 :: int64]\<rparr> ! 0) \<and>
   0 \<le> sint (elems \<lparr>nulls = [False], elems = [4294967295 :: int64]\<rparr> ! 0)"
proof -
  let ?b1 = "\<lparr>nulls = [False], elems = [date_2024_01_01]\<rparr>"
  have h: "wf_col 1 ?b1" "(0::nat) < 1" "\<not> nulls ?b1 ! 0" "\<not> InvalidZero (elems ?b1 ! 0)"
    by (simp_all add: sample_defs eval_defs)
  have e1: "snd (builtinYearWeekWithoutModeSig_vecEvalInt yw_sample ctx_default pool4 1
      (Inr ?b1) empty_col) = Inr (ctx_default, \<lparr>nulls = [False], elems = [202401]\<rparr>)"
    by (simp add: builtinYearWeekWithoutModeSig_vecEvalInt_def builtinYearWeekWithoutModeSig_row_def
        sample_defs eval_defs MaxUint32_def word_sless_alt)
  have e2: "snd (builtinYearWeekWithModeSig_vecEvalInt yw_sample ctx_default pool4 1
      (Inr ?b1) (Inr \<lparr>nulls = [False], elems = [3]\<rparr>) empty_col)
     = Inr (ctx_default, \<lparr>nulls = [False], elems = [4294967295]\<rparr>)"
    by (simp add: builtinYearWeekWithModeSig_vecEvalInt_def builtinYearWeekWithModeSig_row_def
        sample_defs eval_defs MaxUint32_def word_sless_alt)
  from yearweek_nonnegative [OF h, of yw_sample ctx_default pool4 empty_col] e1 e2 h
  show ?thesis by simp
qed


text \<open>
  C10: the two-argument YEARWEEK merges only the date's nulls. A row whose date is non-null
  and not zero and whose mode is NULL is not set null: it gets the value that the same call
  gives the row when the mode is a non-null 0.
\<close>

theorem yearweek_null_mode_is_mode_zero:
  assumes "wf_col n b1" and "i < n" and "\<not> nulls b1 ! i" and "\<not> IsZero (elems b1 ! i)"
    and "nulls b2 ! i"
    and "snd (builtinYearWeekWithModeSig_vecEvalInt YW ctx al n (Inr b1) (Inr b2) result) = Inr (ctx', res')"
    and "\<not> nulls b2z ! i" and "elems b2z ! i = 0"
    and "snd (builtinYearWeekWithModeSig_vecEvalInt YW ctx al n (Inr b1) (Inr b2z) result) = Inr (ctx'', res'')"
  shows "\<not> nulls res' ! i \<and> elems res' ! i = elems res'' ! i \<and>
     elems res' ! i = (case YW (core (elems b1 ! i)) 0 of (yr, week) \<Rightarrow>
        if week + yr * 100 <s 0 then 4294967295 else week + yr * 100)"
proof -
  from assms(6) have run: "for_rows (builtinYearWeekWithModeSig_row YW (elems b1) b2) [0..<n]
      (ctx, MergeNulls (Resize 0 n result) b1) = Inr (ctx', res')"
    by (auto simp: builtinYearWeekWithModeSig_vecEvalInt_def split: sum.splits prod.splits)
  from assms(9) have runz: "for_rows (builtinYearWeekWithModeSig_row YW (elems b1) b2z) [0..<n]
      (ctx, MergeNulls (Resize 0 n result) b1) = Inr (ctx'', res'')"
    by (auto simp: builtinYearWeekWithModeSig_vecEvalInt_def split: sum.splits prod.splits)
  have nn: "\<not> nulls (MergeNulls (Resize 0 n result) b1) ! i"
    using assms(1-3) by (simp add: nulls_init)
  have r: "\<not> nulls res' ! i \<and> elems res' ! i = yearweek_value (YW (core (elems b1 ! i)) 0)"
    using YearWeekWithMode_rows_at [OF run wf_col_init [OF assms(1)] assms(2) nn assms(4)] assms(5)
    by simp
  have rz: "elems res'' ! i = yearweek_value (YW (core (elems b1 ! i)) 0)"
    using YearWeekWithMode_rows_at [OF runz wf_col_init [OF assms(1)] assms(2) nn assms(4)] assms(7,8)
    by simp
  from r rz show ?thesis
    by (simp add: yearweek_value_def MaxUint32_def split: prod.splits)
qed

theorem yearweek_null_mode_is_mode_zero_witness:
  "wf_col 1 \<lparr>nulls = [False], elems = [date_2024_01_01]\<rparr> \<and> (0::nat) < 1 \<and>
   \<not> nulls \<lparr>nulls = [False], elems = [date_2024_01_01]\<rparr> ! 0 \<and>
   \<not> IsZero (elems \<lparr>nulls = [False], elems = [date_2024_01_01]\<rparr> ! 0) \<and>
   nulls \<lparr>nulls = [True], elems = [3 :: int64]\<rparr> ! 0 \<and>
   snd (builtinYearWeekWithModeSig_vecEvalInt yw_sample ctx_default pool4 1
      (Inr \<lparr>nulls = [False], elems = [date_2024_01_01]\<rparr>) (Inr \<lparr>nulls = [True], elems = [3]\<rparr>) empty_col)
     = Inr (ctx_default, \<lparr>nulls = [False], elems = [202401]\<rparr>) \<and>
   snd (builtinYearWeekWithModeSig_vecEvalInt yw_sample ctx_default pool4 1
      (Inr \<lparr>nulls = [False], elems = [date_2024_01_01]\<rparr>) (Inr \<lparr>nulls = [False], elems = [0]\<rparr>) empty_col)
     = Inr (ctx_default, \<lparr>nulls = [False], elems = [202401]\<rparr>) \<and>
   \<not> nulls \<lparr>nulls = [False], elems = [202401 :: int64]\<rparr> ! 0 \<and>
   elems \<lparr>nulls = [False], elems = [202401 :: int64]\<rparr> ! 0 =
     (case yw_sample (core date_2024_01_01) 0 of (yr, week) \<Rightarrow>
        if week + yr * 100 <s 0 then 4294967295 else week + yr * 100)"
proof -
  let ?b1 = "\<lparr>nulls = [False], elems = [date_2024_01_01]\<rparr>"
  let ?b2 = "\<lparr>nulls = [True], elems = [3 :: int64]\<rparr>"
  let ?bz = "\<lparr>nulls = [False], elems = [0 :: int64]\<rparr>"
  have h: "wf_col 1 ?b1" "(0::nat) < 1" "\<not> nulls ?b1 ! 0" "\<not> IsZero (elems ?b1 ! 0)" "nulls ?b2 ! 0"
    by (simp_all add: sample_defs eval_defs)
  have hz: "\<not> nulls ?bz ! 0" "elems ?bz ! 0 = 0" by simp_all
  have e1: "snd (builtinYearWeekWithModeSig_vecEvalInt yw_sample ctx_default pool4 1
      (Inr ?b1) (Inr ?b2) empty_col) = Inr (ctx_default, \<lparr>nulls = [False], elems = [202401]\<rparr>)"
    by (simp add: builtinYearWeekWithModeSig_vecEvalInt_def builtinYearWeekWithModeSig_row_def
        sample_defs eval_defs MaxUint32_def word_sless_alt)
  have e2: "snd (builtinYearWeekWithModeSig_vecEvalInt yw_sample ctx_default pool4 1
      (Inr ?b1) (Inr ?bz) empty_col) = Inr (ctx_default, \<lparr>nulls = [False], elems = [202401]\<rparr>)"
    by (simp add: builtinYearWeekWithModeSig_vecEvalInt_def builtinYearWeekWithModeSig_row_def
        sample_defs eval_defs MaxUint32_def word_sless_alt)
  from yearweek_null_mode_is_mode_zero [OF h e1 hz e2] e1 e2 h
  show ?thesis by (simp add: sample_defs)
qed

subsection \<open>Scratch buffers\<close>

lemma MonthSig_returns_buffer:
  "lent (fst (builtinMonthSig_vecEvalInt ctx al n arg0 result)) = lent al"
  by (simp add: builtinMonthSig_vecEvalInt_def get_def put_def split: sum.splits prod.splits)

lemma YearWeekWithModeSig_keeps_buffers:
  "length (lent al) + 2 \<le> limit al \<Longrightarrow>
   lent (fst (builtinYearWeekWithModeSig_vecEvalInt YW ctx al n (Inr b1) (Inr b2) result))
     = Suc (fresh al) # fresh al # lent al"
  by (simp add: builtinYearWeekWithModeSig_vecEvalInt_def get_def put_def split: sum.splits prod.splits)

text \<open>
  C1: every buffer taken with \<open>get\<close> is to be given back with \<open>put\<close> on every exit path.
  \<^verbatim>\<open>builtinMonthSig.vecEvalInt\<close> does so; \<^verbatim>\<open>builtinYearWeekWithModeSig.vecEvalInt\<close> returns
  from a successful one-row call with both of its buffers still on loan.
\<close>

theorem yearweek_with_mode_leaves_buffers_on_loan:
  "lent (fst (builtinYearWeekWithModeSig_vecEvalInt yw_sample ctx_default pool4 1
      (Inr \<lparr>nulls = [False], elems = [date_2024_01_01]\<rparr>) (Inr \<lparr>nulls = [False], elems = [0]\<rparr>) empty_col))
     = [1, 0] \<and>
   snd (builtinYearWeekWithModeSig_vecEvalInt yw_sample ctx_default pool4 1
      (Inr \<lparr>nulls = [False], elems = [date_2024_01_01]\<rparr>) (Inr \<lparr>nulls = [False], elems = [0]\<rparr>) empty_col)
     = Inr (ctx_default, \<lparr>nulls = [False], elems = [202401]\<rparr>) \<and>
   lent (fst (builtinMonthSig_vecEvalInt ctx_default pool4 1
      (Inr \<lparr>nulls = [False], elems = [date_2024_01_01]\<rparr>) empty_col)) = []"
  by (simp add: builtinYearWeekWithModeSig_vecEvalInt_def builtinYearWeekWithModeSig_row_def
      builtinMonthSig_vecEvalInt_def
      sample_defs eval_defs MaxUint32_def word_sless_alt)

subsection \<open>When the row loop returns and when it fails\<close>

lemma for_rows_total:
  assumes "I s" and "\<And>j t. j \<in> set rs \<Longrightarrow> I t \<Longrightarrow> \<exists>t'. body j t = Inr t' \<and> I t'"
  shows "\<exists>s'. for_rows body rs s = Inr s' \<and> I s'"
  using assms
proof (induction rs arbitrary: s)
  case Nil
  then show ?case by simp
next
  case (Cons j rest)
  from Cons.prems obtain t where t: "body j s = Inr t" "I t" by fastforce
  from Cons.IH [OF t(2)] Cons.prems(2) obtain s' where "for_rows body rest t = Inr s'" "I s'"
    by fastforce
  with t show ?case by simp
qed

lemma for_rows_fails:
  assumes "i \<in> set rs" and "R s"
    and "\<And>j t t'. body j t = Inr t' \<Longrightarrow> R t \<Longrightarrow> R t'"
    and "\<And>t. R t \<Longrightarrow> \<exists>e. body i t = Inl e"
    and "\<And>j t e. body j t = Inl e \<Longrightarrow> E e"
  shows "\<exists>e. for_rows body rs s = Inl e \<and> E e"
  using assms(1,2)
proof (induction rs arbitrary: s)
  case Nil
  then show ?case by simp
next
  case (Cons j rest)
  show ?case
  proof (cases "body j s")
    case (Inl e)
    with assms(5) show ?thesis by auto
  next
    case (Inr t)
    with Cons.prems(2) assms(3) have Rt: "R t" by blast
    from Inr assms(4) [OF Cons.prems(2)] have "j \<noteq> i" by auto
    with Cons.prems(1) have "i \<in> set rest" by simp
    from Cons.IH [OF this Rt] Inr show ?thesis by simp
  qed
qed

subsection \<open>MONTH and YEAR on the zero date\<close>

lemma MonthSig_row_frame:
  "builtinMonthSig_row ds j (x, d) = Inr (x', d') \<Longrightarrow> j \<noteq> i \<Longrightarrow> same_row i d d'"
  by (auto simp: builtinMonthSig_row_def same_row_intros split: if_splits sum.splits)

lemma MonthSig_row_flags:
  "builtinMonthSig_row ds j (x, d) = Inr (x', d') \<Longrightarrow>
     noZeroDate x' = noZeroDate x \<and> strictMode x' = strictMode x \<and>
     set (warnings x) \<subseteq> set (warnings x') \<and> (\<not> noZeroDate x \<longrightarrow> x' = x)"
  by (auto simp: builtinMonthSig_row_def handleInvalidTimeError_def HasNoZeroDateMode_def
      split: if_splits sum.splits)

lemma MonthSig_row_total:
  "\<not> (noZeroDate x \<and> strictMode x) \<Longrightarrow> \<exists>t'. builtinMonthSig_row ds j (x, d) = Inr t'"
  by (auto simp: builtinMonthSig_row_def handleInvalidTimeError_def HasNoZeroDateMode_def)

lemma MonthSig_row_error:
  "builtinMonthSig_row ds j t = Inl e \<Longrightarrow>
     \<exists>dt. e = ErrWrongValue DateTimeStr (TimeArg dt) \<and> IsZero dt"
  by (cases t) (auto simp: builtinMonthSig_row_def handleInvalidTimeError_def split: if_splits sum.splits)

lemma MonthSig_rows_zero_date:
  assumes wf: "wf_col n c" and i: "i < n" and nn: "\<not> nulls c ! i" and z: "IsZero (ds ! i)"
  shows "\<not> noZeroDate ctx \<Longrightarrow>
           \<exists>res'. for_rows (builtinMonthSig_row ds) [0..<n] (ctx, c) = Inr (ctx, res') \<and>
              \<not> nulls res' ! i \<and> elems res' ! i = 0"
    and "noZeroDate ctx \<Longrightarrow> \<not> strictMode ctx \<Longrightarrow>
           \<exists>ctx' res'. for_rows (builtinMonthSig_row ds) [0..<n] (ctx, c) = Inr (ctx', res') \<and>
              nulls res' ! i \<and> ErrWrongValue DateTimeStr (TimeArg (ds ! i)) \<in> set (warnings ctx')"
    and "noZeroDate ctx \<Longrightarrow> strictMode ctx \<Longrightarrow>
           \<exists>dt. for_rows (builtinMonthSig_row ds) [0..<n] (ctx, c) =
              Inl (ErrWrongValue DateTimeStr (TimeArg dt)) \<and> IsZero dt"
proof -
  let ?body = "builtinMonthSig_row ds"
  {
    assume off: "\<not> noZeroDate ctx"
    have "\<exists>s'. for_rows ?body [0..<n] (ctx, c) = Inr s' \<and> fst s' = ctx"
    proof (rule for_rows_total [where I = "\<lambda>t. fst t = ctx"])
      fix j and t :: "sessionctx \<times> int64 column" assume "fst t = ctx"
      with off MonthSig_row_total [of "fst t" ds j "snd t"] MonthSig_row_flags [of ds j "fst t" "snd t"]
      show "\<exists>t'. ?body j t = Inr t' \<and> fst t' = ctx" by fastforce
    qed simp
    then obtain res' where run: "for_rows ?body [0..<n] (ctx, c) = Inr (ctx, res')"
      by (metis prod.collapse)
    have "True \<and> (\<lambda>nl v. \<not> nl \<and> v = 0) (nulls res' ! i) (elems res' ! i)"
    proof (rule for_rows_row [where I = "\<lambda>x. \<not> noZeroDate x" and W = "\<lambda>_. True", OF run i wf off])
      fix x d x' d'
      assume "?body i (x, d) = Inr (x', d')" "\<not> noZeroDate x"
        "i < length (nulls d)" "i < length (elems d)" "nulls d ! i = nulls c ! i"
      with nn z show "True \<and> \<not> nulls d' ! i \<and> elems d' ! i = 0"
        by (auto simp: builtinMonthSig_row_def IsNull_def SetElem_def HasNoZeroDateMode_def
            split: if_splits sum.splits)
    qed (use MonthSig_row_frame MonthSig_row_flags in \<open>blast+\<close>)
    with run show "\<exists>res'. for_rows ?body [0..<n] (ctx, c) = Inr (ctx, res') \<and>
              \<not> nulls res' ! i \<and> elems res' ! i = 0" by blast
  }
  {
    assume on: "noZeroDate ctx" and lax: "\<not> strictMode ctx"
    have "\<exists>s'. for_rows ?body [0..<n] (ctx, c) = Inr s' \<and> \<not> strictMode (fst s')"
    proof (rule for_rows_total [where I = "\<lambda>t. \<not> strictMode (fst t)"])
      fix j and t :: "sessionctx \<times> int64 column" assume "\<not> strictMode (fst t)"
      with MonthSig_row_total [of "fst t" ds j "snd t"] MonthSig_row_flags [of ds j "fst t" "snd t"]
      show "\<exists>t'. ?body j t = Inr t' \<and> \<not> strictMode (fst t')" by fastforce
    qed (use lax in simp)
    then obtain ctx' res' where run: "for_rows ?body [0..<n] (ctx, c) = Inr (ctx', res')"
      by (metis prod.collapse)
    let ?w = "ErrWrongValue DateTimeStr (TimeArg (ds ! i))"
    have "?w \<in> set (warnings ctx') \<and> (\<lambda>nl v. nl) (nulls res' ! i) (elems res' ! i)"
    proof (rule for_rows_row [where I = "\<lambda>x. noZeroDate x \<and> \<not> strictMode x"
          and W = "\<lambda>x. ?w \<in> set (warnings x)", OF run i wf])
      show "noZeroDate ctx \<and> \<not> strictMode ctx" using on lax by simp
    next
      fix x d x' d'
      assume "?body i (x, d) = Inr (x', d')" "noZeroDate x \<and> \<not> strictMode x"
        "i < length (nulls d)" "i < length (elems d)" "nulls d ! i = nulls c ! i"
      with nn z show "?w \<in> set (warnings x') \<and> nulls d' ! i"
        by (auto simp: builtinMonthSig_row_def IsNull_def SetNull_def HasNoZeroDateMode_def
            handleInvalidTimeError_def split: if_splits sum.splits)
    qed (use MonthSig_row_frame MonthSig_row_flags in \<open>blast+\<close>)
    with run show "\<exists>ctx' res'. for_rows ?body [0..<n] (ctx, c) = Inr (ctx', res') \<and>
              nulls res' ! i \<and> ?w \<in> set (warnings ctx')" by blast
  }
  {
    assume on: "noZeroDate ctx" and strict: "strictMode ctx"
    let ?R = "\<lambda>t :: sessionctx \<times> int64 column.
        noZeroDate (fst t) \<and> strictMode (fst t) \<and> same_row i c (snd t)"
    have "\<exists>e. for_rows ?body [0..<n] (ctx, c) = Inl e \<and>
        (\<exists>dt. e = ErrWrongValue DateTimeStr (TimeArg dt) \<and> IsZero dt)"
    proof (rule for_rows_fails [where R = ?R and i = i])
      show "i \<in> set [0..<n]" using i by simp
      show "?R (ctx, c)" using on strict by (simp add: same_row_def)
    next
      fix t assume R: "?R t"
      with wf i nn have "i < length (nulls (snd t))" "\<not> nulls (snd t) ! i"
        by (simp_all add: same_row_def wf_col_def)
      with R z show "\<exists>e. ?body i t = Inl e"
        by (cases t) (auto simp: builtinMonthSig_row_def IsNull_def HasNoZeroDateMode_def
            handleInvalidTimeError_def)
    next
      fix j t t' assume step: "?body j t = Inr t'" and R: "?R t"
      have ne: "j \<noteq> i"
      proof
        assume "j = i"
        from R wf i nn have "i < length (nulls (snd t))" "\<not> nulls (snd t) ! i"
          by (simp_all add: same_row_def wf_col_def)
        with R z have "\<exists>e. ?body i t = Inl e"
          by (cases t) (auto simp: builtinMonthSig_row_def IsNull_def HasNoZeroDateMode_def
              handleInvalidTimeError_def)
        with step \<open>j = i\<close> show False by auto
      qed
      from step have b: "?body j (fst t, snd t) = Inr (fst t', snd t')" by simp
      from MonthSig_row_frame [OF b ne] MonthSig_row_flags [OF b] R show "?R t'"
        by (auto simp: same_row_def)
    next
      fix j t e assume "?body j t = Inl e"
      then show "\<exists>dt. e = ErrWrongValue DateTimeStr (TimeArg dt) \<and> IsZero dt"
        by (rule MonthSig_row_error)
    qed
    then show "\<exists>dt. for_rows ?body [0..<n] (ctx, c) =
              Inl (ErrWrongValue DateTimeStr (TimeArg dt)) \<and> IsZero dt" by blast
  }
qed

lemma YearSig_row_frame:
  "builtinYearSig_row ds j (x, d) = Inr (x', d') \<Longrightarrow> j \<noteq> i \<Longrightarrow> same_row i d d'"
  by (auto simp: builtinYearSig_row_def same_row_intros split: if_splits sum.splits)

lemma YearSig_row_flags:
  "builtinYearSig_row ds j (x, d) = Inr (x', d') \<Longrightarrow>
     noZeroDate x' = noZeroDate x \<and> strictMode x' = strictMode x \<and>
     set (warnings x) \<subseteq> set (warnings x') \<and> (\<not> noZeroDate x \<longrightarrow> x' = x)"
  by (auto simp: builtinYearSig_row_def handleInvalidTimeError_def HasNoZeroDateMode_def
      split: if_splits sum.splits)

lemma YearSig_row_total:
  "\<not> (noZeroDate x \<and> strictMode x) \<Longrightarrow> \<exists>t'. builtinYearSig_row ds j (x, d) = Inr t'"
  by (auto simp: builtinYearSig_row_def handleInvalidTimeError_def HasNoZeroDateMode_def)

lemma YearSig_row_error:
  "builtinYearSig_row ds j t = Inl e \<Longrightarrow>
     \<exists>dt. e = ErrWrongValue DateTimeStr (TimeArg dt) \<and> IsZero dt"
  by (cases t) (auto simp: builtinYearSig_row_def handleInvalidTimeError_def split: if_splits sum.splits)

lemma YearSig_rows_zero_date:
  assumes wf: "wf_col n c" and i: "i < n" and nn: "\<not> nulls c ! i" and z: "IsZero (ds ! i)"
  shows "\<not> noZeroDate ctx \<Longrightarrow>
           \<exists>res'. for_rows (builtinYearSig_row ds) [0..<n] (ctx, c) = Inr (ctx, res') \<and>
              \<not> nulls res' ! i \<and> elems res' ! i = 0"
    and "noZeroDate ctx \<Longrightarrow> \<not> strictMode ctx \<Longrightarrow>
           \<exists>ctx' res'. for_rows (builtinYearSig_row ds) [0..<n] (ctx, c) = Inr (ctx', res') \<and>
              nulls res' ! i \<and> ErrWrongValue DateTimeStr (TimeArg (ds ! i)) \<in> set (warnings ctx')"
    and "noZeroDate ctx \<Longrightarrow> strictMode ctx \<Longrightarrow>
           \<exists>dt. for_rows (builtinYearSig_row ds) [0..<n] (ctx, c) =
              Inl (ErrWrongValue DateTimeStr (TimeArg dt)) \<and> IsZero dt"
proof -
  let ?body = "builtinYearSig_row ds"
  {
    assume off: "\<not> noZeroDate ctx"
    have "\<exists>s'. for_rows ?body [0..<n] (ctx, c) = Inr s' \<and> fst s' = ctx"
    proof (rule for_rows_total [where I = "\<lambda>t. fst t = ctx"])
      fix j and t :: "sessionctx \<times> int64 column" assume "fst t = ctx"
      with off YearSig_row_total [of "fst t" ds j "snd t"] YearSig_row_flags [of ds j "fst t" "snd t"]
      show "\<exists>t'. ?body j t = Inr t' \<and> fst t' = ctx" by fastforce
    qed simp
    then obtain res' where run: "for_rows ?body [0..<n] (ctx, c) = Inr (ctx, res')"
      by (metis prod.collapse)
    have "True \<and> (\<lambda>nl v. \<not> nl \<and> v = 0) (nulls res' ! i) (elems res' ! i)"
    proof (rule for_rows_row [where I = "\<lambda>x. \<not> noZeroDate x" and W = "\<lambda>_. True", OF run i wf off])
      fix x d x' d'
      assume "?body i (x, d) = Inr (x', d')" "\<not> noZeroDate x"
        "i < length (nulls d)" "i < length (elems d)" "nulls d ! i = nulls c ! i"
      with nn z show "True \<and> \<not> nulls d' ! i \<and> elems d' ! i = 0"
        by (auto simp: builtinYearSig_row_def IsNull_def SetElem_def HasNoZeroDateMode_def
            split: if_splits sum.splits)
    qed (use YearSig_row_frame YearSig_row_flags in \<open>blast+\<close>)
    with run show "\<exists>res'. for_rows ?body [0..<n] (ctx, c) = Inr (ctx, res') \<and>
              \<not> nulls res' ! i \<and> elems res' ! i = 0" by blast
  }
  {
    assume on: "noZeroDate ctx" and lax: "\<not> strictMode ctx"
    have "\<exists>s'. for_rows ?body [0..<n] (ctx, c) = Inr s' \<and> \<not> strictMode (fst s')"
    proof (rule for_rows_total [where I = "\<lambda>t. \<not> strictMode (fst t)"])
      fix j and t :: "sessionctx \<times> int64 column" assume "\<not> strictMode (fst t)"
      with YearSig_row_total [of "fst t" ds j "snd t"] YearSig_row_flags [of ds j "fst t" "snd t"]
      show "\<exists>t'. ?body j t = Inr t' \<and> \<not> strictMode (fst t')" by fastforce
    qed (use lax in simp)
    then obtain ctx' res' where run: "for_rows ?body [0..<n] (ctx, c) = Inr (ctx', res')"
      by (metis prod.collapse)
    let ?w = "ErrWrongValue DateTimeStr (TimeArg (ds ! i))"
    have "?w \<in> set (warnings ctx') \<and> (\<lambda>nl v. nl) (nulls res' ! i) (elems res' ! i)"
    proof (rule for_rows_row [where I = "\<lambda>x. noZeroDate x \<and> \<not> strictMode x"
          and W = "\<lambda>x. ?w \<in> set (warnings x)", OF run i wf])
      show "noZeroDate ctx \<and> \<not> strictMode ctx" using on lax by simp
    next
      fix x d x' d'
      assume "?body i (x, d) = Inr (x', d')" "noZeroDate x \<and> \<not> strictMode x"
        "i < length (nulls d)" "i < length (elems d)" "nulls d ! i = nulls c ! i"
      with nn z show "?w \<in> set (warnings x') \<and> nulls d' ! i"
        by (auto simp: builtinYearSig_row_def IsNull_def SetNull_def HasNoZeroDateMode_def
            handleInvalidTimeError_def split: if_splits sum.splits)
    qed (use YearSig_row_frame YearSig_row_flags in \<open>blast+\<close>)
    with run show "\<exists>ctx' res'. for_rows ?body [0..<n] (ctx, c) = Inr (ctx', res') \<and>
              nulls res' ! i \<and> ?w \<in> set (warnings ctx')" by blast
  }
  {
    assume on: "noZeroDate ctx" and strict: "strictMode ctx"
    let ?R = "\<lambda>t :: sessionctx \<times> int64 column.
        noZeroDate (fst t) \<and> strictMode (fst t) \<and> same_row i c (snd t)"
    have "\<exists>e. for_rows ?body [0..<n] (ctx, c) = Inl e \<and>
        (\<exists>dt. e = ErrWrongValue DateTimeStr (TimeArg dt) \<and> IsZero dt)"
    proof (rule for_rows_fails [where R = ?R and i = i])
      show "i \<in> set [0..<n]" using i by simp
      show "?R (ctx, c)" using on strict by (simp add: same_row_def)
    next
      fix t assume R: "?R t"
      with wf i nn have "i < length (nulls (snd t))" "\<not> nulls (snd t) ! i"
        by (simp_all add: same_row_def wf_col_def)
      with R z show "\<exists>e. ?body i t = Inl e"
        by (cases t) (auto simp: builtinYearSig_row_def IsNull_def HasNoZeroDateMode_def
            handleInvalidTimeError_def)
    next
      fix j t t' assume step: "?body j t = Inr t'" and R: "?R t"
      have ne: "j \<noteq> i"
      proof
        assume "j = i"
        from R wf i nn have "i < length (nulls (snd t))" "\<not> nulls (snd t) ! i"
          by (simp_all add: same_row_def wf_col_def)
        with R z have "\<exists>e. ?body i t = Inl e"
          by (cases t) (auto simp: builtinYearSig_row_def IsNull_def HasNoZeroDateMode_def
              handleInvalidTimeError_def)
        with step \<open>j = i\<close> show False by auto
      qed
      from step have b: "?body j (fst t, snd t) = Inr (fst t', snd t')" by simp
      from YearSig_row_frame [OF b ne] YearSig_row_flags [OF b] R show "?R t'"
        by (auto simp: same_row_def)
    next
      fix j t e assume "?body j t = Inl e"
      then show "\<exists>dt. e = ErrWrongValue DateTimeStr (TimeArg dt) \<and> IsZero dt"
        by (rule YearSig_row_error)
    qed
    then show "\<exists>dt. for_rows ?body [0..<n] (ctx, c) =
              Inl (ErrWrongValue DateTimeStr (TimeArg dt)) \<and> IsZero dt" by blast
  }
qed

lemma MonthSig_vecEvalInt_rows:
  "length (lent al) < limit al \<Longrightarrow>
   snd (builtinMonthSig_vecEvalInt ctx al n (Inr b) result) =
     for_rows (builtinMonthSig_row (elems b)) [0..<n] (ctx, MergeNulls (Resize 0 n result) b)"
  by (simp add: builtinMonthSig_vecEvalInt_def get_def)

lemma YearSig_vecEvalInt_rows:
  "length (lent al) < limit al \<Longrightarrow>
   snd (builtinYearSig_vecEvalInt ctx al n (Inr b) result) =
     for_rows (builtinYearSig_row (elems b)) [0..<n] (ctx, MergeNulls (Resize 0 n result) b)"
  by (simp add: builtinYearSig_vecEvalInt_def get_def)

text \<open>
  C2, as amended: for a row whose datetime argument is non-null and the zero date, MONTH and
  YEAR return 0 for the row, with no error and no warning, when NoZeroDate is off. When
  NoZeroDate is on, the row goes to the invalid-time policy: if the policy resolves to a
  warning, the call succeeds, the row is null and the wrong-value error is in the warning
  sink; if it resolves to Fatal, the whole call fails with the wrong-value error of a zero
  date.
\<close>

theorem month_year_zero_date:
  assumes "wf_col n b" and "i < n" and "\<not> nulls b ! i" and "IsZero (elems b ! i)"
    and "length (lent al) < limit al"
  shows "(\<not> noZeroDate ctx \<longrightarrow>
            (\<exists>res'. snd (builtinMonthSig_vecEvalInt ctx al n (Inr b) result) = Inr (ctx, res') \<and>
               \<not> nulls res' ! i \<and> elems res' ! i = 0) \<and>
            (\<exists>res'. snd (builtinYearSig_vecEvalInt ctx al n (Inr b) result) = Inr (ctx, res') \<and>
               \<not> nulls res' ! i \<and> elems res' ! i = 0)) \<and>
         (noZeroDate ctx \<and> \<not> strictMode ctx \<longrightarrow>
            (\<exists>ctx' res'. snd (builtinMonthSig_vecEvalInt ctx al n (Inr b) result) = Inr (ctx', res') \<and>
               nulls res' ! i \<and>
               ErrWrongValue DateTimeStr (TimeArg (elems b ! i)) \<in> set (warnings ctx')) \<and>
            (\<exists>ctx' res'. snd (builtinYearSig_vecEvalInt ctx al n (Inr b) result) = Inr (ctx', res') \<and>
               nulls res' ! i \<and>
               ErrWrongValue DateTimeStr (TimeArg (elems b ! i)) \<in> set (warnings ctx'))) \<and>
         (noZeroDate ctx \<and> strictMode ctx \<longrightarrow>
            (\<exists>dt. snd (builtinMonthSig_vecEvalInt ctx al n (Inr b) result) =
               Inl (ErrWrongValue DateTimeStr (TimeArg dt)) \<and> IsZero dt) \<and>
            (\<exists>dt. snd (builtinYearSig_vecEvalInt ctx al n (Inr b) result) =
               Inl (ErrWrongValue DateTimeStr (TimeArg dt)) \<and> IsZero dt))"
proof -
  let ?c = "MergeNulls (Resize 0 n result) b"
  have wf: "wf_col n ?c" using assms(1) by (rule wf_col_init)
  have nn: "\<not> nulls ?c ! i" using assms(1-3) by (simp add: nulls_init)
  note m = MonthSig_rows_zero_date [OF wf assms(2) nn assms(4), of ctx]
  note y = YearSig_rows_zero_date [OF wf assms(2) nn assms(4), of ctx]
  show ?thesis
    unfolding MonthSig_vecEvalInt_rows [OF assms(5)] YearSig_vecEvalInt_rows [OF assms(5)]
    using m y by blast
qed

theorem month_year_zero_date_witness:
  "wf_col 1 zero_col \<and> (0::nat) < 1 \<and> \<not> nulls zero_col ! 0 \<and> IsZero (elems zero_col ! 0) \<and>
   length (lent pool4) < limit pool4 \<and>
   \<not> noZeroDate ctx_default \<and>
   (\<exists>res'. snd (builtinMonthSig_vecEvalInt ctx_default pool4 1 (Inr zero_col) empty_col)
        = Inr (ctx_default, res') \<and> \<not> nulls res' ! 0 \<and> elems res' ! 0 = 0) \<and>
   noZeroDate ctx_no_zero_date \<and> \<not> strictMode ctx_no_zero_date \<and>
   (\<exists>ctx' res'. snd (builtinYearSig_vecEvalInt ctx_no_zero_date pool4 1 (Inr zero_col) empty_col)
        = Inr (ctx', res') \<and> nulls res' ! 0 \<and>
        ErrWrongValue DateTimeStr (TimeArg (elems zero_col ! 0)) \<in> set (warnings ctx')) \<and>
   noZeroDate ctx_strict \<and> strictMode ctx_strict \<and>
   (\<exists>dt. snd (builtinMonthSig_vecEvalInt ctx_strict pool4 1 (Inr zero_col) empty_col)
        = Inl (ErrWrongValue DateTimeStr (TimeArg dt)) \<and> IsZero dt)"
proof -
  have h: "wf_col 1 zero_col" "(0::nat) < 1" "\<not> nulls zero_col ! 0" "IsZero (elems zero_col ! 0)"
    "length (lent pool4) < limit pool4"
    by (simp_all add: zero_col_def zero_date_def wf_col_def IsZero_def FromDate_def pool4_def)
  have f: "\<not> noZeroDate ctx_default" "noZeroDate ctx_no_zero_date" "\<not> strictMode ctx_no_zero_date"
    "noZeroDate ctx_strict" "strictMode ctx_strict"
    by (simp_all add: ctx_default_def ctx_no_zero_date_def ctx_strict_def)
  from month_year_zero_date [OF h, of ctx_default empty_col]
    month_year_zero_date [OF h, of ctx_no_zero_date empty_col]
    month_year_zero_date [OF h, of ctx_strict empty_col] h f
  show ?thesis by blast
qed

text \<open>
  With NoZeroDate on and a policy that resolves to Fatal, MONTH and YEAR of a non-null zero
  date do not succeed: the call returns the wrong-value error.
\<close>

theorem month_zero_date_fails_under_strict_no_zero_date:
  "noZeroDate ctx_strict \<and> \<not> nulls zero_col ! 0 \<and> IsZero (elems zero_col ! 0) \<and>
   snd (builtinMonthSig_vecEvalInt ctx_strict pool4 1 (Inr zero_col) empty_col)
     = Inl (ErrWrongValue DateTimeStr (TimeArg zero_date)) \<and>
   snd (builtinYearSig_vecEvalInt ctx_strict pool4 1 (Inr zero_col) empty_col)
     = Inl (ErrWrongValue DateTimeStr (TimeArg zero_date))"
  by (simp add: builtinMonthSig_vecEvalInt_def builtinMonthSig_row_def
      builtinYearSig_vecEvalInt_def builtinYearSig_row_def
      zero_col_def zero_date_def ctx_strict_def sample_defs eval_defs)

subsection \<open>Loops over a column alone\<close>

lemma for_rows_col:
  assumes run: "for_rows body [0..<n] c = Inr c'"
    and i: "i < n" and wf: "wf_col n c"
    and frame: "\<And>j d d'. body j d = Inr d' \<Longrightarrow> j \<noteq> i \<Longrightarrow> same_row i d d'"
    and at: "\<And>d d'. body i d = Inr d' \<Longrightarrow> i < length (nulls d) \<Longrightarrow> i < length (elems d) \<Longrightarrow>
               nulls d ! i = nulls c ! i \<Longrightarrow> elems d ! i = elems c ! i \<Longrightarrow>
               G (nulls d' ! i) (elems d' ! i)"
  shows "G (nulls c' ! i) (elems c' ! i)"
proof (rule for_rows_frame [where R = "same_row i c"
      and Q = "\<lambda>d. G (nulls d ! i) (elems d ! i)" and i = i, OF run])
  show "same_row i c c" by (simp add: same_row_def)
  show "i \<in> set [0..<n]" using i by simp
  show "distinct [0..<n]" by simp
next
  fix j t t' assume "j \<noteq> i" "body j t = Inr t'" "same_row i c t"
  with frame [of j t t'] show "same_row i c t'" by (simp add: same_row_def)
next
  fix j t t' assume "j \<noteq> i" "body j t = Inr t'" "G (nulls t ! i) (elems t ! i)"
  with frame [of j t t'] show "G (nulls t' ! i) (elems t' ! i)" by (simp add: same_row_def)
next
  fix t t' assume "same_row i c t" "body i t = Inr t'"
  with at [of t t'] wf i show "G (nulls t' ! i) (elems t' ! i)"
    by (simp add: same_row_def wf_col_def)
qed

lemma for_rows_succeeds:
  assumes "distinct rs" and "\<forall>j \<in> set rs. P j s"
    and "\<And>j t. P j t \<Longrightarrow> \<exists>t'. body j t = Inr t'"
    and "\<And>j k t t'. body j t = Inr t' \<Longrightarrow> k \<noteq> j \<Longrightarrow> P k t \<Longrightarrow> P k t'"
  shows "\<exists>s'. for_rows body rs s = Inr s'"
  using assms(1,2)
proof (induction rs arbitrary: s)
  case Nil
  then show ?case by simp
next
  case (Cons j rest)
  from Cons.prems(2) assms(3) obtain t where t: "body j s = Inr t" by fastforce
  have "\<forall>k \<in> set rest. P k t"
  proof
    fix k assume k: "k \<in> set rest"
    with Cons.prems(1) have "k \<noteq> j" by auto
    moreover from k Cons.prems(2) have "P k s" by simp
    ultimately show "P k t" using assms(4) [OF t] by blast
  qed
  moreover from Cons.prems(1) have "distinct rest" by simp
  ultimately obtain s' where "for_rows body rest t = Inr s'" using Cons.IH by blast
  with t show ?case by simp
qed

subsection \<open>PERIOD\_ADD and PERIOD\_DIFF\<close>

lemma PeriodAddSig_row_frame:
  "builtinPeriodAddSig_row ns j d = Inr d' \<Longrightarrow> j \<noteq> i \<Longrightarrow> same_row i d d'"
  by (auto simp: builtinPeriodAddSig_row_def Let_def same_row_intros split: if_splits)

lemma PeriodDiffSig_row_frame:
  "builtinPeriodDiffSig_row ps j d = Inr d' \<Longrightarrow> j \<noteq> i \<Longrightarrow> same_row i d d'"
  by (auto simp: builtinPeriodDiffSig_row_def Let_def same_row_intros split: if_splits)

lemma PeriodAddSig_rows:
  assumes wf: "wf_col n c"
  shows "(\<exists>i<n. \<not> nulls c ! i \<and> \<not> validPeriod (elems c ! i)) \<Longrightarrow>
           for_rows (builtinPeriodAddSig_row ns) [0..<n] c = Inl (ErrIncorrectArgs ''period_add'')"
    and "(\<forall>i<n. nulls c ! i \<or> validPeriod (elems c ! i)) \<Longrightarrow>
           \<exists>res. for_rows (builtinPeriodAddSig_row ns) [0..<n] c = Inr res \<and>
             (\<forall>i<n. nulls res ! i = nulls c ! i)"
proof -
  let ?body = "builtinPeriodAddSig_row ns"
  {
    assume "\<exists>i<n. \<not> nulls c ! i \<and> \<not> validPeriod (elems c ! i)"
    then obtain i where i: "i < n" "\<not> nulls c ! i" "\<not> validPeriod (elems c ! i)" by blast
    have "\<exists>e. for_rows ?body [0..<n] c = Inl e \<and> e = ErrIncorrectArgs ''period_add''"
    proof (rule for_rows_fails [where R = "same_row i c" and i = i])
      show "i \<in> set [0..<n]" using i by simp
      show "same_row i c c" by (simp add: same_row_def)
    next
      fix t assume "same_row i c t"
      with i show "\<exists>e. ?body i t = Inl e"
        by (simp add: builtinPeriodAddSig_row_def same_row_def IsNull_def)
    next
      fix j t t' assume step: "?body j t = Inr t'" and R: "same_row i c t"
      with i have "j \<noteq> i"
        by (auto simp: builtinPeriodAddSig_row_def same_row_def IsNull_def)
      from PeriodAddSig_row_frame [OF step this] R show "same_row i c t'"
        by (simp add: same_row_def)
    next
      fix j t e assume "?body j t = Inl e"
      then show "e = ErrIncorrectArgs ''period_add''"
        by (auto simp: builtinPeriodAddSig_row_def Let_def split: if_splits)
    qed
    then show "for_rows ?body [0..<n] c = Inl (ErrIncorrectArgs ''period_add'')" by blast
  }
  {
    assume ok: "\<forall>i<n. nulls c ! i \<or> validPeriod (elems c ! i)"
    have "\<exists>res. for_rows ?body [0..<n] c = Inr res"
    proof (rule for_rows_succeeds [where P = "\<lambda>j (t :: int64 column). nulls t ! j \<or> validPeriod (elems t ! j)"])
      show "distinct [0..<n]" by simp
      show "\<forall>j \<in> set [0..<n]. nulls c ! j \<or> validPeriod (elems c ! j)" using ok by simp
    next
      fix j and t :: "int64 column" assume "nulls t ! j \<or> validPeriod (elems t ! j)"
      then show "\<exists>t'. ?body j t = Inr t'"
        by (auto simp: builtinPeriodAddSig_row_def Let_def IsNull_def)
    next
      fix j k and t t' :: "int64 column" assume "?body j t = Inr t'" "k \<noteq> j" "nulls t ! k \<or> validPeriod (elems t ! k)"
      with PeriodAddSig_row_frame [of ns j t t' k]
      show "nulls t' ! k \<or> validPeriod (elems t' ! k)" by (auto simp: same_row_def)
    qed
    then obtain res where run: "for_rows ?body [0..<n] c = Inr res" by blast
    have "\<forall>i<n. nulls res ! i = nulls c ! i"
    proof (intro allI impI)
      fix i assume i: "i < n"
      show "nulls res ! i = nulls c ! i"
      proof (rule for_rows_col [where G = "\<lambda>nl v. nl = nulls c ! i", OF run i wf])
        fix d d' assume "?body i d = Inr d'" "nulls d ! i = nulls c ! i"
        then show "nulls d' ! i = nulls c ! i"
          by (auto simp: builtinPeriodAddSig_row_def Let_def SetElem_def split: if_splits)
      qed (rule PeriodAddSig_row_frame)
    qed
    with run show "\<exists>res. for_rows ?body [0..<n] c = Inr res \<and> (\<forall>i<n. nulls res ! i = nulls c ! i)"
      by blast
  }
qed

lemma PeriodDiffSig_rows:
  assumes wf: "wf_col n c"
  shows "(\<exists>i<n. \<not> nulls c ! i \<and> (\<not> validPeriod (elems c ! i) \<or> \<not> validPeriod (ps ! i))) \<Longrightarrow>
           for_rows (builtinPeriodDiffSig_row ps) [0..<n] c = Inl (ErrIncorrectArgs ''period_diff'')"
    and "(\<forall>i<n. nulls c ! i \<or> (validPeriod (elems c ! i) \<and> validPeriod (ps ! i))) \<Longrightarrow>
           \<exists>res. for_rows (builtinPeriodDiffSig_row ps) [0..<n] c = Inr res \<and>
             (\<forall>i<n. nulls res ! i = nulls c ! i)"
proof -
  let ?body = "builtinPeriodDiffSig_row ps"
  {
    assume "\<exists>i<n. \<not> nulls c ! i \<and> (\<not> validPeriod (elems c ! i) \<or> \<not> validPeriod (ps ! i))"
    then obtain i where i: "i < n" "\<not> nulls c ! i"
      "\<not> validPeriod (elems c ! i) \<or> \<not> validPeriod (ps ! i)" by blast
    have "\<exists>e. for_rows ?body [0..<n] c = Inl e \<and> e = ErrIncorrectArgs ''period_diff''"
    proof (rule for_rows_fails [where R = "same_row i c" and i = i])
      show "i \<in> set [0..<n]" using i by simp
      show "same_row i c c" by (simp add: same_row_def)
    next
      fix t assume "same_row i c t"
      with i show "\<exists>e. ?body i t = Inl e"
        by (auto simp: builtinPeriodDiffSig_row_def same_row_def IsNull_def)
    next
      fix j t t' assume step: "?body j t = Inr t'" and R: "same_row i c t"
      with i have "j \<noteq> i"
        by (auto simp: builtinPeriodDiffSig_row_def same_row_def IsNull_def split: if_splits)
      from PeriodDiffSig_row_frame [OF step this] R show "same_row i c t'"
        by (simp add: same_row_def)
    next
      fix j t e assume "?body j t = Inl e"
      then show "e = ErrIncorrectArgs ''period_diff''"
        by (auto simp: builtinPeriodDiffSig_row_def Let_def split: if_splits)
    qed
    then show "for_rows ?body [0..<n] c = Inl (ErrIncorrectArgs ''period_diff'')" by blast
  }
  {
    assume ok: "\<forall>i<n. nulls c ! i \<or> (validPeriod (elems c ! i) \<and> validPeriod (ps ! i))"
    have "\<exists>res. for_rows ?body [0..<n] c = Inr res"
    proof (rule for_rows_succeeds
        [where P = "\<lambda>j (t :: int64 column).
            nulls t ! j \<or> (validPeriod (elems t ! j) \<and> validPeriod (ps ! j))"])
      show "distinct [0..<n]" by simp
      show "\<forall>j \<in> set [0..<n]. nulls c ! j \<or> (validPeriod (elems c ! j) \<and> validPeriod (ps ! j))"
        using ok by simp
    next
      fix j and t :: "int64 column" assume "nulls t ! j \<or> (validPeriod (elems t ! j) \<and> validPeriod (ps ! j))"
      then show "\<exists>t'. ?body j t = Inr t'"
        by (auto simp: builtinPeriodDiffSig_row_def Let_def IsNull_def)
    next
      fix j k and t t' :: "int64 column" assume "?body j t = Inr t'" "k \<noteq> j"
        "nulls t ! k \<or> (validPeriod (elems t ! k) \<and> validPeriod (ps ! k))"
      with PeriodDiffSig_row_frame [of ps j t t' k]
      show "nulls t' ! k \<or> (validPeriod (elems t' ! k) \<and> validPeriod (ps ! k))"
        by (auto simp: same_row_def)
    qed
    then obtain res where run: "for_rows ?body [0..<n] c = Inr res" by blast
    have "\<forall>i<n. nulls res ! i = nulls c ! i"
    proof (intro allI impI)
      fix i assume i: "i < n"
      show "nulls res ! i = nulls c ! i"
      proof (rule for_rows_col [where G = "\<lambda>nl v. nl = nulls c ! i", OF run i wf])
        fix d d' assume "?body i d = Inr d'" "nulls d ! i = nulls c ! i"
        then show "nulls d' ! i = nulls c ! i"
          by (auto simp: builtinPeriodDiffSig_row_def Let_def SetElem_def split: if_splits)
      qed (rule PeriodDiffSig_row_frame)
    qed
    with run show "\<exists>res. for_rows ?body [0..<n] c = Inr res \<and> (\<forall>i<n. nulls res ! i = nulls c ! i)"
      by blast
  }
qed

lemma wf_col_MergeNulls: "wf_col n c \<Longrightarrow> wf_col n b \<Longrightarrow> wf_col n (MergeNulls c b)"
  by (simp add: wf_col_def MergeNulls_def)

lemma nulls_MergeNulls:
  "wf_col n c \<Longrightarrow> wf_col n b \<Longrightarrow> i < n \<Longrightarrow> nulls (MergeNulls c b) ! i = (nulls c ! i \<or> nulls b ! i)"
  by (simp add: wf_col_def MergeNulls_def)

lemma elems_MergeNulls: "elems (MergeNulls c b) = elems c"
  by (simp add: MergeNulls_def)

lemma PeriodAddSig_vecEvalInt_rows:
  "length (lent al) < limit al \<Longrightarrow>
   snd (builtinPeriodAddSig_vecEvalInt al n (Inr p) (Inr q)) =
     for_rows (builtinPeriodAddSig_row (elems q)) [0..<n] (MergeNulls p q)"
  by (simp add: builtinPeriodAddSig_vecEvalInt_def get_def)

lemma PeriodDiffSig_vecEvalInt_rows:
  "length (lent al) < limit al \<Longrightarrow>
   snd (builtinPeriodDiffSig_vecEvalInt al n (Inr p) (Inr q)) =
     for_rows (builtinPeriodDiffSig_row (elems q)) [0..<n] (MergeNulls p q)"
  by (simp add: builtinPeriodDiffSig_vecEvalInt_def get_def)

text \<open>
  C4: in PERIOD\_ADD and PERIOD\_DIFF the nulls are merged before the loop and a null row is
  skipped before any validity check. The call fails with the incorrect-arguments error
  whenever some row with both arguments non-null has a period that fails \<open>validPeriod\<close>
  (the period of PERIOD\_ADD, either period of PERIOD\_DIFF); when every row is null or has
  valid periods the call succeeds and exactly the rows with a NULL argument are null, whatever
  period stands in them.
\<close>

theorem period_validity_checked_after_nulls:
  assumes "wf_col n p" and "wf_col n q" and "length (lent al) < limit al"
  shows "((\<exists>i<n. \<not> nulls p ! i \<and> \<not> nulls q ! i \<and> \<not> validPeriod (elems p ! i)) \<longrightarrow>
            snd (builtinPeriodAddSig_vecEvalInt al n (Inr p) (Inr q)) = Inl (ErrIncorrectArgs ''period_add'')) \<and>
         ((\<forall>i<n. nulls p ! i \<or> nulls q ! i \<or> validPeriod (elems p ! i)) \<longrightarrow>
            (\<exists>res. snd (builtinPeriodAddSig_vecEvalInt al n (Inr p) (Inr q)) = Inr res \<and>
               (\<forall>i<n. nulls res ! i = (nulls p ! i \<or> nulls q ! i)))) \<and>
         ((\<exists>i<n. \<not> nulls p ! i \<and> \<not> nulls q ! i \<and>
              (\<not> validPeriod (elems p ! i) \<or> \<not> validPeriod (elems q ! i))) \<longrightarrow>
            snd (builtinPeriodDiffSig_vecEvalInt al n (Inr p) (Inr q)) = Inl (ErrIncorrectArgs ''period_diff'')) \<and>
         ((\<forall>i<n. nulls p ! i \<or> nulls q ! i \<or> (validPeriod (elems p ! i) \<and> validPeriod (elems q ! i))) \<longrightarrow>
            (\<exists>res. snd (builtinPeriodDiffSig_vecEvalInt al n (Inr p) (Inr q)) = Inr res \<and>
               (\<forall>i<n. nulls res ! i = (nulls p ! i \<or> nulls q ! i))))"
proof -
  let ?c = "MergeNulls p q"
  have wf: "wf_col n ?c" using assms(1,2) by (rule wf_col_MergeNulls)
  have nl: "\<And>i. i < n \<Longrightarrow> nulls ?c ! i = (nulls p ! i \<or> nulls q ! i)"
    using assms(1,2) by (rule nulls_MergeNulls)
  have el: "elems ?c = elems p" by (rule elems_MergeNulls)
  note a = PeriodAddSig_rows [OF wf, of "elems q"]
  note d = PeriodDiffSig_rows [OF wf, of "elems q"]
  show ?thesis
    unfolding PeriodAddSig_vecEvalInt_rows [OF assms(3)] PeriodDiffSig_vecEvalInt_rows [OF assms(3)]
  proof (intro conjI impI)
    assume "\<exists>i<n. \<not> nulls p ! i \<and> \<not> nulls q ! i \<and> \<not> validPeriod (elems p ! i)"
    then have "\<exists>i<n. \<not> nulls ?c ! i \<and> \<not> validPeriod (elems ?c ! i)" using nl el by auto
    then show "for_rows (builtinPeriodAddSig_row (elems q)) [0..<n] ?c = Inl (ErrIncorrectArgs ''period_add'')"
      by (rule a(1))
  next
    assume "\<forall>i<n. nulls p ! i \<or> nulls q ! i \<or> validPeriod (elems p ! i)"
    then have "\<forall>i<n. nulls ?c ! i \<or> validPeriod (elems ?c ! i)" using nl el by auto
    from a(2) [OF this] nl
    show "\<exists>res. for_rows (builtinPeriodAddSig_row (elems q)) [0..<n] ?c = Inr res \<and>
               (\<forall>i<n. nulls res ! i = (nulls p ! i \<or> nulls q ! i))" by auto
  next
    assume "\<exists>i<n. \<not> nulls p ! i \<and> \<not> nulls q ! i \<and>
              (\<not> validPeriod (elems p ! i) \<or> \<not> validPeriod (elems q ! i))"
    then have "\<exists>i<n. \<not> nulls ?c ! i \<and> (\<not> validPeriod (elems ?c ! i) \<or> \<not> validPeriod (elems q ! i))"
      using nl el by auto
    then show "for_rows (builtinPeriodDiffSig_row (elems q)) [0..<n] ?c = Inl (ErrIncorrectArgs ''period_diff'')"
      by (rule d(1))
  next
    assume "\<forall>i<n. nulls p ! i \<or> nulls q ! i \<or> (validPeriod (elems p ! i) \<and> validPeriod (elems q ! i))"
    then have "\<forall>i<n. nulls ?c ! i \<or> (validPeriod (elems ?c ! i) \<and> validPeriod (elems q ! i))"
      using nl el by auto
    from d(2) [OF this] nl
    show "\<exists>res. for_rows (builtinPeriodDiffSig_row (elems q)) [0..<n] ?c = Inr res \<and>
               (\<forall>i<n. nulls res ! i = (nulls p ! i \<or> nulls q ! i))" by auto
  qed
qed

subsection \<open>Period arithmetic in 64 bits\<close>

lemma uint_add_small:
  "uint (x :: uint64) + uint y < 2 ^ 64 \<Longrightarrow> uint (x + y) = uint x + uint y"
  using uint_add_lem [of x y] by simp

lemma uint_mult_small:
  "uint (x :: uint64) * uint y < 2 ^ 64 \<Longrightarrow> uint (x * y) = uint x * uint y"
  using uint_mult_lem [of x y] by simp

lemma uint_sub_small:
  "uint (y :: uint64) \<le> uint x \<Longrightarrow> uint (x - y) = uint x - uint y"
  using uint_sub_lem [of y x] by simp

lemma sint_small:
  assumes "uint (w :: int64) < 2 ^ 63" shows "sint w = uint w"
proof -
  have "- (2 ^ 63) \<le> uint w"
    by (rule order_trans [of _ 0]) simp_all
  from signed_take_bit_int_eq_self [OF this assms] show ?thesis
    by (simp add: sint_uint)
qed

lemma uint_month2Period:
  assumes "uint (s :: uint64) \<le> 119999"
  shows "uint (month2Period s) = (uint s div 12) * 100 + uint s mod 12 + 1"
proof -
  have a: "uint (s div 12) = uint s div 12" by (simp add: uint_div)
  have b: "uint (s mod 12) = uint s mod 12" by (simp add: uint_mod)
  have c: "uint s div 12 \<le> 9999" "0 \<le> uint s div 12"
    using assms by (simp_all add: pos_imp_zdiv_nonneg_iff)
  have b': "uint s mod 12 < 12" "0 \<le> uint s mod 12" by simp_all
  have d: "uint (s div 12 * 100) = uint s div 12 * 100"
    using c by (subst uint_mult_small) (simp_all add: a)
  have e: "uint (s div 12 * 100 + s mod 12) = uint s div 12 * 100 + uint s mod 12"
    using c b' by (subst uint_add_small) (simp_all add: d b)
  have "uint (s div 12 * 100 + s mod 12 + 1) = uint s div 12 * 100 + uint s mod 12 + 1"
    using c b' by (subst uint_add_small) (simp_all add: e)
  then show ?thesis by (simp add: month2Period_def)
qed

lemma uint_period2Month_wide:
  assumes r: "uint (r :: uint64) = y * 100 + mo"
    and y: "100 \<le> y" "y \<le> 9999" and mo: "1 \<le> mo" "mo \<le> 12"
  shows "uint (period2Month r) = y * 12 + mo - 1"
proof -
  have yr: "uint (r div 100) = y"
    using r mo by (simp add: uint_div)
  have mon: "uint (r mod 100) = mo"
    using r mo by (simp add: uint_mod)
  have n70: "\<not> r div 100 < 70" using yr y by (simp add: word_less_alt)
  have n100: "\<not> r div 100 < 100" using yr y by (simp add: word_less_alt)
  have m: "uint (r div 100 * 12) = y * 12"
    using y by (subst uint_mult_small) (simp_all add: yr)
  have a: "uint (r div 100 * 12 + r mod 100) = y * 12 + mo"
    using y mo by (subst uint_add_small) (simp_all add: m mon)
  have "uint (r div 100 * 12 + r mod 100 - 1) = y * 12 + mo - 1"
    using y mo by (subst uint_sub_small) (simp_all add: a)
  then show ?thesis
    using n70 n100 by (simp add: period2Month_def Let_def)
qed

lemma period2Month_month2Period:
  assumes "1200 \<le> uint (s :: uint64)" and "uint s \<le> 119999"
  shows "period2Month (month2Period s) = s" and "validPeriod (month2Period s)"
proof -
  let ?y = "uint s div 12" and ?mo = "uint s mod 12 + 1"
  have r: "uint (month2Period s) = ?y * 100 + ?mo"
    using uint_month2Period [OF assms(2)] by simp
  have y: "100 \<le> ?y" "?y \<le> 9999" using assms by simp_all
  have mo: "1 \<le> ?mo" "?mo \<le> 12" by simp_all
  have "uint (period2Month (month2Period s)) = ?y * 12 + ?mo - 1"
    using r y mo by (rule uint_period2Month_wide)
  also have "\<dots> = uint s" by simp
  finally show "period2Month (month2Period s) = s" by (simp add: word_uint_eq_iff)
  have small: "uint (month2Period s) < 2 ^ 63" using r y mo by simp
  have "uint (month2Period s) mod 100 = ?mo" using r mo by simp
  then show "validPeriod (month2Period s)"
    using r y mo by (simp add: validPeriod_def sint_small [OF small])
qed

lemma for_rows_inv:
  assumes "for_rows body rs s = Inr s'" and "P s"
    and "\<And>j t t'. body j t = Inr t' \<Longrightarrow> P t \<Longrightarrow> P t'"
  shows "P s'"
  using assms(1,2)
proof (induction rs arbitrary: s)
  case Nil
  then show ?case by simp
next
  case (Cons j rest)
  from Cons.prems(1) obtain t where t: "body j s = Inr t" "for_rows body rest t = Inr s'"
    by (auto split: sum.splits)
  from assms(3) [OF t(1) Cons.prems(2)] Cons.IH [OF t(2)] show ?case by blast
qed

lemma PeriodAddSig_row_wf:
  "builtinPeriodAddSig_row ns j d = Inr d' \<Longrightarrow> wf_col n d \<Longrightarrow> wf_col n d'"
  by (auto simp: builtinPeriodAddSig_row_def Let_def SetElem_def wf_col_def split: if_splits)

lemma PeriodAddSig_rows_at:
  assumes run: "for_rows (builtinPeriodAddSig_row ns) [0..<n] c = Inr r"
    and wf: "wf_col n c" and i: "i < n" and nn: "\<not> nulls c ! i"
  shows "wf_col n r" and "\<not> nulls r ! i"
    and "elems r ! i = month2Period (period2Month (elems c ! i) + ns ! i)"
proof -
  show "wf_col n r"
    using run wf by (rule for_rows_inv) (rule PeriodAddSig_row_wf)
  have "(\<lambda>nl v. \<not> nl \<and> v = month2Period (period2Month (elems c ! i) + ns ! i))
      (nulls r ! i) (elems r ! i)"
  proof (rule for_rows_col [OF run i wf])
    fix d d'
    assume "builtinPeriodAddSig_row ns i d = Inr d'" "i < length (nulls d)" "i < length (elems d)"
      "nulls d ! i = nulls c ! i" "elems d ! i = elems c ! i"
    with nn show "\<not> nulls d' ! i \<and> elems d' ! i = month2Period (period2Month (elems c ! i) + ns ! i)"
      by (auto simp: builtinPeriodAddSig_row_def Let_def IsNull_def SetElem_def split: if_splits)
  qed (rule PeriodAddSig_row_frame)
  then show "\<not> nulls r ! i"
    and "elems r ! i = month2Period (period2Month (elems c ! i) + ns ! i)" by simp_all
qed

lemma PeriodDiffSig_rows_at:
  assumes run: "for_rows (builtinPeriodDiffSig_row ps) [0..<n] c = Inr r"
    and wf: "wf_col n c" and i: "i < n" and nn: "\<not> nulls c ! i"
  shows "\<not> nulls r ! i"
    and "elems r ! i = period2Month (elems c ! i) - period2Month (ps ! i)"
proof -
  have "(\<lambda>nl v. \<not> nl \<and> v = period2Month (elems c ! i) - period2Month (ps ! i))
      (nulls r ! i) (elems r ! i)"
  proof (rule for_rows_col [OF run i wf])
    fix d d'
    assume "builtinPeriodDiffSig_row ps i d = Inr d'" "i < length (nulls d)" "i < length (elems d)"
      "nulls d ! i = nulls c ! i" "elems d ! i = elems c ! i"
    with nn show "\<not> nulls d' ! i \<and> elems d' ! i = period2Month (elems c ! i) - period2Month (ps ! i)"
      by (auto simp: builtinPeriodDiffSig_row_def Let_def IsNull_def SetElem_def split: if_splits)
  qed (rule PeriodDiffSig_row_frame)
  then show "\<not> nulls r ! i"
    and "elems r ! i = period2Month (elems c ! i) - period2Month (ps ! i)" by simp_all
qed

lemma PeriodAddSig_vecEvalInt_Inr:
  "snd (builtinPeriodAddSig_vecEvalInt al n (Inr p) (Inr q)) = Inr r \<Longrightarrow>
   for_rows (builtinPeriodAddSig_row (elems q)) [0..<n] (MergeNulls p q) = Inr r"
  by (auto simp: builtinPeriodAddSig_vecEvalInt_def split: sum.splits prod.splits)

lemma PeriodDiffSig_vecEvalInt_Inr:
  "snd (builtinPeriodDiffSig_vecEvalInt al n (Inr p) (Inr q)) = Inr r \<Longrightarrow>
   for_rows (builtinPeriodDiffSig_row (elems q)) [0..<n] (MergeNulls p q) = Inr r"
  by (auto simp: builtinPeriodDiffSig_vecEvalInt_def split: sum.splits prod.splits)

lemma PeriodDiff_of_PeriodAdd_row:
  assumes "wf_col n p" and "wf_col n q" and "i < n" and "\<not> nulls p ! i" and "\<not> nulls q ! i"
    and "1200 \<le> uint (period2Month (elems p ! i) + elems q ! i)"
    and "uint (period2Month (elems p ! i) + elems q ! i) \<le> 119999"
    and "snd (builtinPeriodAddSig_vecEvalInt al n (Inr p) (Inr q)) = Inr r"
    and "snd (builtinPeriodDiffSig_vecEvalInt al' n (Inr r) (Inr p)) = Inr d"
  shows "\<not> nulls d ! i \<and> elems d ! i = elems q ! i"
proof -
  let ?s = "period2Month (elems p ! i) + elems q ! i"
  have wfc: "wf_col n (MergeNulls p q)" using assms(1,2) by (rule wf_col_MergeNulls)
  have nnc: "\<not> nulls (MergeNulls p q) ! i"
    using assms(1-5) by (simp add: nulls_MergeNulls)
  note add = PeriodAddSig_rows_at [OF PeriodAddSig_vecEvalInt_Inr [OF assms(8)] wfc assms(3) nnc]
  have ri: "elems r ! i = month2Period ?s" using add(3) by (simp add: elems_MergeNulls)
  have wfd: "wf_col n (MergeNulls r p)" using add(1) assms(1) by (rule wf_col_MergeNulls)
  have nnd: "\<not> nulls (MergeNulls r p) ! i"
    using add(1,2) assms(1,3,4) by (simp add: nulls_MergeNulls)
  note diff = PeriodDiffSig_rows_at [OF PeriodDiffSig_vecEvalInt_Inr [OF assms(9)] wfd assms(3) nnd]
  have "elems d ! i = period2Month (month2Period ?s) - period2Month (elems p ! i)"
    using diff(2) ri by (simp add: elems_MergeNulls)
  also have "\<dots> = ?s - period2Month (elems p ! i)"
    using period2Month_month2Period(1) [OF assms(6,7)] by simp
  also have "\<dots> = elems q ! i" by simp
  finally show ?thesis using diff(1) by simp
qed

text \<open>
  C3, as amended: let every row of a batch be null in one argument or hold a valid period
  \<open>P\<close> and a delta \<open>N\<close> such that the month index of \<open>P\<close> plus \<open>N\<close> lies between 1200 and
  119999, that is, PERIOD\_ADD(P, N) is a period YYYYMM with a year from 100 to 9999. Then
  PERIOD\_ADD and PERIOD\_DIFF both succeed and PERIOD\_DIFF(PERIOD\_ADD(P, N), P) is exactly
  \<open>N\<close> on every non-null row.
\<close>

theorem period_add_then_diff_returns_delta:
  assumes "wf_col n p" and "wf_col n q"
    and "length (lent al) < limit al" and "length (lent al') < limit al'"
    and "\<forall>j<n. nulls p ! j \<or> nulls q ! j \<or>
           (validPeriod (elems p ! j) \<and>
            1200 \<le> uint (period2Month (elems p ! j) + elems q ! j) \<and>
            uint (period2Month (elems p ! j) + elems q ! j) \<le> 119999)"
  shows "\<exists>r d. snd (builtinPeriodAddSig_vecEvalInt al n (Inr p) (Inr q)) = Inr r \<and>
           snd (builtinPeriodDiffSig_vecEvalInt al' n (Inr r) (Inr p)) = Inr d \<and>
           (\<forall>i<n. nulls d ! i = (nulls p ! i \<or> nulls q ! i)) \<and>
           (\<forall>i<n. \<not> nulls p ! i \<and> \<not> nulls q ! i \<longrightarrow> elems d ! i = elems q ! i)"
proof -
  let ?c = "MergeNulls p q"
  have wfc: "wf_col n ?c" using assms(1,2) by (rule wf_col_MergeNulls)
  have nlc: "\<And>i. i < n \<Longrightarrow> nulls ?c ! i = (nulls p ! i \<or> nulls q ! i)"
    using assms(1,2) by (rule nulls_MergeNulls)
  have "\<forall>i<n. nulls ?c ! i \<or> validPeriod (elems ?c ! i)"
    using assms(5) nlc by (auto simp: elems_MergeNulls)
  from PeriodAddSig_rows(2) [OF wfc this, of "elems q"]
  obtain r where run: "for_rows (builtinPeriodAddSig_row (elems q)) [0..<n] ?c = Inr r"
    and nlr: "\<forall>i<n. nulls r ! i = nulls ?c ! i" by blast
  have addr: "snd (builtinPeriodAddSig_vecEvalInt al n (Inr p) (Inr q)) = Inr r"
    using run by (simp add: PeriodAddSig_vecEvalInt_rows [OF assms(3)])
  have wfr: "wf_col n r"
    using run wfc by (rule for_rows_inv) (rule PeriodAddSig_row_wf)
  have ri: "elems r ! i = month2Period (period2Month (elems p ! i) + elems q ! i)"
    if "i < n" "\<not> nulls p ! i" "\<not> nulls q ! i" for i
    using PeriodAddSig_rows_at(3) [OF run wfc that(1)] that nlc by (simp add: elems_MergeNulls)
  let ?e = "MergeNulls r p"
  have wfe: "wf_col n ?e" using wfr assms(1) by (rule wf_col_MergeNulls)
  have nle: "\<And>i. i < n \<Longrightarrow> nulls ?e ! i = (nulls p ! i \<or> nulls q ! i)"
    using nulls_MergeNulls [OF wfr assms(1)] nlr nlc by auto
  have "\<forall>i<n. nulls ?e ! i \<or> (validPeriod (elems ?e ! i) \<and> validPeriod (elems p ! i))"
  proof (intro allI impI)
    fix i assume i: "i < n"
    show "nulls ?e ! i \<or> (validPeriod (elems ?e ! i) \<and> validPeriod (elems p ! i))"
    proof (cases "nulls p ! i \<or> nulls q ! i")
      case True
      with nle [OF i] show ?thesis by simp
    next
      case False
      with assms(5) i have h: "validPeriod (elems p ! i)"
        "1200 \<le> uint (period2Month (elems p ! i) + elems q ! i)"
        "uint (period2Month (elems p ! i) + elems q ! i) \<le> 119999" by auto
      from ri [OF i] False period2Month_month2Period(2) [OF h(2,3)] h(1)
      show ?thesis by (simp add: elems_MergeNulls)
    qed
  qed
  from PeriodDiffSig_rows(2) [OF wfe this]
  obtain d where rund: "for_rows (builtinPeriodDiffSig_row (elems p)) [0..<n] ?e = Inr d"
    and nld: "\<forall>i<n. nulls d ! i = nulls ?e ! i" by blast
  have diffd: "snd (builtinPeriodDiffSig_vecEvalInt al' n (Inr r) (Inr p)) = Inr d"
    using rund by (simp add: PeriodDiffSig_vecEvalInt_rows [OF assms(4)])
  have "\<forall>i<n. \<not> nulls p ! i \<and> \<not> nulls q ! i \<longrightarrow> elems d ! i = elems q ! i"
  proof (intro allI impI)
    fix i assume i: "i < n" and nn: "\<not> nulls p ! i \<and> \<not> nulls q ! i"
    with assms(5) have h: "1200 \<le> uint (period2Month (elems p ! i) + elems q ! i)"
      "uint (period2Month (elems p ! i) + elems q ! i) \<le> 119999" by auto
    from PeriodDiff_of_PeriodAdd_row [OF assms(1,2) i _ _ h addr diffd] nn
    show "elems d ! i = elems q ! i" by simp
  qed
  with addr diffd nld nle show ?thesis by auto
qed

lemmas period_defs = periods_one_null_def periods_one_invalid_def periods_second_def deltas_def
  validPeriod_def period2Month_def month2Period_def

theorem period_validity_checked_after_nulls_witness:
  "wf_col 2 periods_one_invalid \<and> wf_col 2 periods_one_null \<and> wf_col 2 periods_second \<and>
   length (lent pool4) < limit pool4 \<and>
   nulls periods_one_invalid ! 0 \<and>
   \<not> nulls periods_one_invalid ! 1 \<and> \<not> nulls periods_second ! 1 \<and>
   \<not> validPeriod (elems periods_one_invalid ! 1) \<and>
   snd (builtinPeriodAddSig_vecEvalInt pool4 2 (Inr periods_one_invalid) (Inr periods_second))
     = Inl (ErrIncorrectArgs ''period_add'') \<and>
   snd (builtinPeriodDiffSig_vecEvalInt pool4 2 (Inr periods_one_invalid) (Inr periods_second))
     = Inl (ErrIncorrectArgs ''period_diff'') \<and>
   nulls periods_one_null ! 0 \<and> \<not> validPeriod (elems periods_one_null ! 0) \<and>
   \<not> nulls periods_one_null ! 1 \<and> validPeriod (elems periods_one_null ! 1) \<and>
   validPeriod (elems periods_second ! 1) \<and>
   (\<exists>res. snd (builtinPeriodAddSig_vecEvalInt pool4 2 (Inr periods_one_null) (Inr periods_second)) = Inr res \<and>
      nulls res ! 0 \<and> \<not> nulls res ! 1) \<and>
   (\<exists>res. snd (builtinPeriodDiffSig_vecEvalInt pool4 2 (Inr periods_one_null) (Inr periods_second)) = Inr res \<and>
      nulls res ! 0 \<and> \<not> nulls res ! 1)"
proof -
  have wf: "wf_col 2 periods_one_invalid" "wf_col 2 periods_one_null" "wf_col 2 periods_second"
    and al: "length (lent pool4) < limit pool4"
    by (simp_all add: period_defs wf_col_def pool4_def)
  have rows: "nulls periods_one_invalid ! 0" "\<not> nulls periods_one_invalid ! 1"
    "\<not> nulls periods_second ! 0" "\<not> nulls periods_second ! 1"
    "\<not> validPeriod (elems periods_one_invalid ! 1)"
    "nulls periods_one_null ! 0" "\<not> validPeriod (elems periods_one_null ! 0)"
    "\<not> nulls periods_one_null ! 1" "validPeriod (elems periods_one_null ! 1)"
    "validPeriod (elems periods_second ! 1)"
    by (simp_all add: period_defs)
  have bad: "\<exists>i<2. \<not> nulls periods_one_invalid ! i \<and> \<not> nulls periods_second ! i \<and>
       \<not> validPeriod (elems periods_one_invalid ! i)"
    using rows by (intro exI [of _ 1]) simp
  have ok: "\<forall>i<2. nulls periods_one_null ! i \<or> nulls periods_second ! i \<or>
       (validPeriod (elems periods_one_null ! i) \<and> validPeriod (elems periods_second ! i))"
    using rows by (simp add: less_2_cases_iff)
  have bad2: "\<exists>i<2. \<not> nulls periods_one_invalid ! i \<and> \<not> nulls periods_second ! i \<and>
       (\<not> validPeriod (elems periods_one_invalid ! i) \<or> \<not> validPeriod (elems periods_second ! i))"
    using rows by (intro exI [of _ 1]) simp
  have ok1: "\<forall>i<2. nulls periods_one_null ! i \<or> nulls periods_second ! i \<or>
       validPeriod (elems periods_one_null ! i)"
    using rows by (simp add: less_2_cases_iff)
  have two: "(0::nat) < 2" "(1::nat) < 2" by simp_all
  note t1 = period_validity_checked_after_nulls [OF wf(1) wf(3) al]
  note t2 = period_validity_checked_after_nulls [OF wf(2) wf(3) al]
  have f1: "snd (builtinPeriodAddSig_vecEvalInt pool4 2 (Inr periods_one_invalid) (Inr periods_second))
     = Inl (ErrIncorrectArgs ''period_add'')"
    using t1 [THEN conjunct1] bad by (rule mp)
  have f2: "snd (builtinPeriodDiffSig_vecEvalInt pool4 2 (Inr periods_one_invalid) (Inr periods_second))
     = Inl (ErrIncorrectArgs ''period_diff'')"
    using t1 [THEN conjunct2, THEN conjunct2, THEN conjunct1] bad2 by (rule mp)
  from t2 [THEN conjunct2, THEN conjunct1] ok1
  have "\<exists>res. snd (builtinPeriodAddSig_vecEvalInt pool4 2 (Inr periods_one_null) (Inr periods_second)) = Inr res \<and>
      (\<forall>i<2. nulls res ! i = (nulls periods_one_null ! i \<or> nulls periods_second ! i))"
    by (rule mp)
  then obtain ra where ra: "snd (builtinPeriodAddSig_vecEvalInt pool4 2 (Inr periods_one_null) (Inr periods_second)) = Inr ra"
    "\<forall>i<2. nulls ra ! i = (nulls periods_one_null ! i \<or> nulls periods_second ! i)" by blast
  from ra(2) two rows have g1: "nulls ra ! 0 \<and> \<not> nulls ra ! 1" by simp
  from t2 [THEN conjunct2, THEN conjunct2, THEN conjunct2] ok
  have "\<exists>res. snd (builtinPeriodDiffSig_vecEvalInt pool4 2 (Inr periods_one_null) (Inr periods_second)) = Inr res \<and>
      (\<forall>i<2. nulls res ! i = (nulls periods_one_null ! i \<or> nulls periods_second ! i))"
    by (rule mp)
  then obtain rd where rd: "snd (builtinPeriodDiffSig_vecEvalInt pool4 2 (Inr periods_one_null) (Inr periods_second)) = Inr rd"
    "\<forall>i<2. nulls rd ! i = (nulls periods_one_null ! i \<or> nulls periods_second ! i)" by blast
  from rd(2) two rows have g2: "nulls rd ! 0 \<and> \<not> nulls rd ! 1" by simp
  from ra(1) g1 have e1: "\<exists>res. snd (builtinPeriodAddSig_vecEvalInt pool4 2 (Inr periods_one_null) (Inr periods_second)) = Inr res \<and>
      nulls res ! 0 \<and> \<not> nulls res ! 1" by blast
  from rd(1) g2 have e2: "\<exists>res. snd (builtinPeriodDiffSig_vecEvalInt pool4 2 (Inr periods_one_null) (Inr periods_second)) = Inr res \<and>
      nulls res ! 0 \<and> \<not> nulls res ! 1" by blast
  show ?thesis
    using wf al rows f1 f2 e1 e2 by (intro conjI)
qed

theorem period_add_then_diff_returns_delta_witness:
  "wf_col 2 periods_one_null \<and> wf_col 2 deltas \<and> length (lent pool4) < limit pool4 \<and>
   nulls periods_one_null ! 0 \<and>
   \<not> nulls periods_one_null ! 1 \<and> \<not> nulls deltas ! 1 \<and>
   validPeriod (elems periods_one_null ! 1) \<and>
   1200 \<le> uint (period2Month (elems periods_one_null ! 1) + elems deltas ! 1) \<and>
   uint (period2Month (elems periods_one_null ! 1) + elems deltas ! 1) \<le> 119999 \<and>
   (\<exists>r d. snd (builtinPeriodAddSig_vecEvalInt pool4 2 (Inr periods_one_null) (Inr deltas)) = Inr r \<and>
      snd (builtinPeriodDiffSig_vecEvalInt pool4 2 (Inr r) (Inr periods_one_null)) = Inr d \<and>
      nulls d ! 0 \<and> \<not> nulls d ! 1 \<and> elems d ! 1 = elems deltas ! 1)"
proof -
  have wf: "wf_col 2 periods_one_null" "wf_col 2 deltas"
    and al: "length (lent pool4) < limit pool4"
    by (simp_all add: period_defs wf_col_def pool4_def)
  have rows: "nulls periods_one_null ! 0" "\<not> nulls periods_one_null ! 1" "\<not> nulls deltas ! 1"
    "validPeriod (elems periods_one_null ! 1)"
    "1200 \<le> uint (period2Month (elems periods_one_null ! 1) + elems deltas ! 1)"
    "uint (period2Month (elems periods_one_null ! 1) + elems deltas ! 1) \<le> 119999"
    by (simp_all add: period_defs)
  have ok: "\<forall>j<2. nulls periods_one_null ! j \<or> nulls deltas ! j \<or>
       (validPeriod (elems periods_one_null ! j) \<and>
        1200 \<le> uint (period2Month (elems periods_one_null ! j) + elems deltas ! j) \<and>
        uint (period2Month (elems periods_one_null ! j) + elems deltas ! j) \<le> 119999)"
    using rows by (simp add: less_2_cases_iff)
  have two: "(0::nat) < 2" "(1::nat) < 2" by simp_all
  from period_add_then_diff_returns_delta [OF wf al al ok]
  obtain r d where rd: "snd (builtinPeriodAddSig_vecEvalInt pool4 2 (Inr periods_one_null) (Inr deltas)) = Inr r"
    "snd (builtinPeriodDiffSig_vecEvalInt pool4 2 (Inr r) (Inr periods_one_null)) = Inr d"
    "\<forall>i<2. nulls d ! i = (nulls periods_one_null ! i \<or> nulls deltas ! i)"
    "\<forall>i<2. \<not> nulls periods_one_null ! i \<and> \<not> nulls deltas ! i \<longrightarrow> elems d ! i = elems deltas ! i"
    by blast
  from rd(3,4) two rows have g: "nulls d ! 0 \<and> \<not> nulls d ! 1 \<and> elems d ! 1 = elems deltas ! 1"
    by simp
  from rd(1,2) g have e: "\<exists>r d. snd (builtinPeriodAddSig_vecEvalInt pool4 2 (Inr periods_one_null) (Inr deltas)) = Inr r \<and>
      snd (builtinPeriodDiffSig_vecEvalInt pool4 2 (Inr r) (Inr periods_one_null)) = Inr d \<and>
      nulls d ! 0 \<and> \<not> nulls d ! 1 \<and> elems d ! 1 = elems deltas ! 1" by blast
  show ?thesis
    using wf al rows e by (intro conjI)
qed

text \<open>
  Outside that range the round trip is lost. PERIOD\_ADD(200001, -23400) has the month
  index 600, year 50; its period is read back as the two-digit year 2050 and PERIOD\_DIFF
  returns 600. PERIOD\_ADD(202401, -30000) has a negative month index, which the conversion
  to \<^verbatim>\<open>uint64\<close> turns into a huge one; the result is no period and PERIOD\_DIFF fails.
\<close>

theorem period_add_then_diff_loses_delta:
  "validPeriod 200001 \<and>
   snd (builtinPeriodAddSig_vecEvalInt pool4 1 (Inr \<lparr>nulls = [False], elems = [200001]\<rparr>)
      (Inr \<lparr>nulls = [False], elems = [- 23400]\<rparr>)) = Inr \<lparr>nulls = [False], elems = [5001]\<rparr> \<and>
   snd (builtinPeriodDiffSig_vecEvalInt pool4 1 (Inr \<lparr>nulls = [False], elems = [5001]\<rparr>)
      (Inr \<lparr>nulls = [False], elems = [200001]\<rparr>)) = Inr \<lparr>nulls = [False], elems = [600]\<rparr> \<and>
   (600 :: int64) \<noteq> - 23400 \<and>
   validPeriod 202401 \<and>
   snd (builtinPeriodAddSig_vecEvalInt pool4 1 (Inr \<lparr>nulls = [False], elems = [202401]\<rparr>)
      (Inr \<lparr>nulls = [False], elems = [- 30000]\<rparr>))
     = Inr \<lparr>nulls = [False], elems = [6148914691236469577]\<rparr> \<and>
   snd (builtinPeriodDiffSig_vecEvalInt pool4 1 (Inr \<lparr>nulls = [False], elems = [6148914691236469577]\<rparr>)
      (Inr \<lparr>nulls = [False], elems = [202401]\<rparr>)) = Inl (ErrIncorrectArgs ''period_diff'')"
  by (simp add: builtinPeriodAddSig_vecEvalInt_def builtinPeriodAddSig_row_def
      builtinPeriodDiffSig_vecEvalInt_def builtinPeriodDiffSig_row_def validPeriod_def
      period2Month_def month2Period_def sample_defs eval_defs)

subsection \<open>The calendar\<close>

declare walk_year.simps [simp del] walk_month.simps [simp del]

lemma mod_100_4: "(n::nat) mod 100 = 0 \<Longrightarrow> n mod 4 = 0"
  by presburger

lemma mod_400_100: "(n::nat) mod 400 = 0 \<Longrightarrow> n mod 100 = 0"
  by presburger

lemma div_100_le_4: "(k::nat) div 100 \<le> k div 4"
  by (rule div_le_mono2) simp_all

lemma daynr_jan1_Suc: 
  assumes "1 \<le> y" shows "daynr_jan1 (Suc y) = daynr_jan1 y + days_in_year y"
proof -
  from assms obtain k where y: "y = Suc k" by (cases y) auto
  have le: "k div 100 \<le> k div 4" by (rule div_100_le_4)
  show ?thesis
    using le mod_100_4 [of "Suc k"] mod_400_100 [of "Suc k"]
    by (auto simp: y daynr_jan1_def days_in_year_def leap_year_def div_Suc)
qed

lemma div_4_400: "(k::nat) div 4 + k div 400 \<le> k"
proof -
  have "k div 4 \<le> k div 2" by (rule div_le_mono2) simp_all
  moreover have "k div 400 \<le> k div 2" by (rule div_le_mono2) simp_all
  moreover have "k div 2 + k div 2 \<le> k" by simp
  ultimately show ?thesis by linarith
qed

lemma daynr_jan1_le:
  assumes "1 \<le> y" shows "daynr_jan1 y \<le> 366 * y"
proof -
  have "daynr_jan1 y \<le> 365 * y + (y - 1) div 4 + (y - 1) div 400 + 1"
    by (simp add: daynr_jan1_def)
  also have "\<dots> \<le> 365 * y + (y - 1) + 1"
    using div_4_400 [of "y - 1"] by linarith
  also have "\<dots> = 366 * y" using assms by simp
  finally show ?thesis .
qed

lemma daynr_jan1_estimate: 
  assumes "366 \<le> n" shows "daynr_jan1 (n div 366) \<le> n" "1 \<le> n div 366"
proof -
  show 1: "1 \<le> n div 366" using assms by (simp add: Suc_le_eq div_greater_zero_iff)
  have "366 * (n div 366) \<le> n" by simp
  with daynr_jan1_le [OF 1] show "daynr_jan1 (n div 366) \<le> n" by linarith
qed

lemma walk_year_inv:
  "walk_year y r = (y', r') \<Longrightarrow> 1 \<le> y \<Longrightarrow>
     daynr_jan1 y + r = daynr_jan1 y' + r' \<and> r' < days_in_year y' \<and> y \<le> y'"
proof (induction y r rule: walk_year.induct)
  case (1 y r)
  show ?case
  proof (cases "r < days_in_year y")
    case True
    with "1.prems" show ?thesis by (simp add: walk_year.simps [of y r])
  next
    case False
    with "1.prems" have w: "walk_year (y + 1) (r - days_in_year y) = (y', r')"
      by (simp add: walk_year.simps [of y r])
    from "1.IH" [OF False w] have
      "daynr_jan1 (Suc y) + (r - days_in_year y) = daynr_jan1 y' + r'" "r' < days_in_year y'" "Suc y \<le> y'"
      by simp_all
    with False daynr_jan1_Suc [OF "1.prems"(2)] show ?thesis by simp
  qed
qed

lemma days_before_month_1: "days_before_month y 1 = 0"
  by (simp add: days_before_month_def)

lemma days_before_month_Suc:
  "1 \<le> m \<Longrightarrow> days_before_month y (Suc m) = days_before_month y m + days_in_month y m"
  by (simp add: days_before_month_def)

lemma days_before_month_mono:
  "1 \<le> m \<Longrightarrow> m \<le> m' \<Longrightarrow> days_before_month y m \<le> days_before_month y m'"
proof (induction m')
  case 0
  then show ?case by simp
next
  case (Suc m')
  show ?case
  proof (cases "m = Suc m'")
    case True
    then show ?thesis by simp
  next
    case False
    with Suc.prems have "m \<le> m'" by simp
    with Suc.IH Suc.prems(1) have "days_before_month y m \<le> days_before_month y m'" by simp
    moreover from \<open>m \<le> m'\<close> Suc.prems(1) have "1 \<le> m'" by simp
    ultimately show ?thesis by (simp add: days_before_month_Suc)
  qed
qed

lemma days_before_month_13: "days_before_month y 13 = days_in_year y"
  by (simp add: days_before_month_def days_in_month_def days_in_year_def upt_conv_Cons)

lemma walk_month_inv:
  "walk_month y m r = (m', r') \<Longrightarrow> 1 \<le> m \<Longrightarrow>
     days_before_month y m + r = days_before_month y m' + r' \<and> r' < days_in_month y m' \<and> m \<le> m'"
proof (induction y m r rule: walk_month.induct)
  case (1 y m r)
  show ?case
  proof (cases "r < days_in_month y m")
    case True
    with "1.prems" show ?thesis by (simp add: walk_month.simps [of y m r])
  next
    case False
    with "1.prems" have w: "walk_month y (m + 1) (r - days_in_month y m) = (m', r')"
      by (simp add: walk_month.simps [of y m r])
    from "1.IH" [OF False w] have
      "days_before_month y (Suc m) + (r - days_in_month y m) = days_before_month y m' + r'"
      "r' < days_in_month y m'" "Suc m \<le> m'"
      by simp_all
    with False days_before_month_Suc [OF "1.prems"(2)] show ?thesis by simp
  qed
qed

lemma date_of_daynr_correct:
  assumes "366 \<le> n"
  shows "daynr (date_of_daynr n) = n"
    and "1 \<le> year (date_of_daynr n)"
    and "1 \<le> month (date_of_daynr n) \<and> month (date_of_daynr n) \<le> 12"
    and "1 \<le> day (date_of_daynr n) \<and>
         day (date_of_daynr n) \<le> days_in_month (year (date_of_daynr n)) (month (date_of_daynr n))"
proof -
  let ?y0 = "n div 366"
  obtain y r where wy: "walk_year ?y0 (n - daynr_jan1 ?y0) = (y, r)" by (cases "walk_year ?y0 (n - daynr_jan1 ?y0)")
  obtain m r' where wm: "walk_month y 1 r = (m, r')" by (cases "walk_month y 1 r")
  have d: "date_of_daynr n = FromDate y m (Suc r') 0 0 0 0"
    using wy wm by (simp add: date_of_daynr_def Let_def)
  note est = daynr_jan1_estimate [OF assms]
  from walk_year_inv [OF wy est(2)]
  have yi: "daynr_jan1 ?y0 + (n - daynr_jan1 ?y0) = daynr_jan1 y + r" "r < days_in_year y" "?y0 \<le> y"
    by simp_all
  from yi(1) est(1) have y1: "daynr_jan1 y + r = n" by simp
  from yi(3) est(2) have y3: "1 \<le> y" by (rule order_trans [rotated])
  note y = y1 yi(2) y3
  from walk_month_inv [OF wm]
  have m: "r = days_before_month y m + r'" "r' < days_in_month y m" "1 \<le> m"
    using days_before_month_1 [of y] by simp_all
  have m12: "m \<le> 12"
  proof (rule ccontr)
    assume "\<not> m \<le> 12"
    then have "13 \<le> m" by simp
    from days_before_month_mono [OF _ this, of y] have "days_in_year y \<le> days_before_month y m"
      by (simp add: days_before_month_13)
    with m(1) y(2) show False by simp
  qed
  show "daynr (date_of_daynr n) = n"
    using y m by (simp add: d daynr_def FromDate_def)
  show "1 \<le> year (date_of_daynr n)" using y by (simp add: d FromDate_def)
  show "1 \<le> month (date_of_daynr n) \<and> month (date_of_daynr n) \<le> 12"
    using m m12 by (simp add: d FromDate_def)
  show "1 \<le> day (date_of_daynr n) \<and>
         day (date_of_daynr n) \<le> days_in_month (year (date_of_daynr n)) (month (date_of_daynr n))"
    using m by (simp add: d FromDate_def)
qed

lemma date_2024_02_29: "date_of_daynr 739310 = FromDate 2024 2 29 0 0 0 0"
  by (simp add: date_of_daynr_def daynr_jan1_def walk_year.simps walk_month.simps
      days_in_year_def days_in_month_def leap_year_def Let_def numeral_2_eq_2 [symmetric])

lemma daynr_2024_01_01: "daynr (FromDate 2024 1 1 0 0 0 0) = 739251"
  by (simp add: daynr_def daynr_jan1_def days_before_month_def FromDate_def)

subsection \<open>WEEKDAY and DAYNAME\<close>

lemma WeekDaySig_row_frame:
  "builtinWeekDaySig_row ds j (x, d) = Inr (x', d') \<Longrightarrow> j \<noteq> i \<Longrightarrow> same_row i d d'"
  by (auto simp: builtinWeekDaySig_row_def same_row_intros split: if_splits sum.splits)

lemma DayNameSig_row_frame:
  "builtinDayNameSig_row b (\<lambda>i res c. SetElem c i (of_nat res)) (\<lambda>i c. SetNull c i True) j (x, d)
      = Inr (x', d')
     \<Longrightarrow> j \<noteq> i \<Longrightarrow> same_row i d d'"
  by (auto simp: builtinDayNameSig_row_def Let_def same_row_intros split: if_splits sum.splits)

lemma monday_first_index:
  "sint (of_nat ((w + 6) mod 7) :: int64) = int ((w + 6) mod 7)"
proof -
  have "(w + 6) mod 7 < 7" by simp
  then have "uint (of_nat ((w + 6) mod 7) :: int64) = int ((w + 6) mod 7)"
    by (simp add: uint_nat unat_of_nat)
  moreover from this have "uint (of_nat ((w + 6) mod 7) :: int64) < 2 ^ 63" by simp
  ultimately show ?thesis using sint_small by simp
qed

lemma WeekDaySig_rows_at:
  assumes run: "for_rows (builtinWeekDaySig_row ds) [0..<n] (ctx, c) = Inr (ctx', c')"
    and wf: "wf_col n c" and i: "i < n" and nn: "\<not> nulls c ! i" and nz: "\<not> IsZero (ds ! i)"
  shows "\<not> nulls c' ! i \<and> elems c' ! i = of_nat ((Weekday (core (ds ! i)) + 6) mod 7)"
proof -
  let ?v = "of_nat ((Weekday (core (ds ! i)) + 6) mod 7) :: int64"
  have "True \<and> (\<lambda>nl v. \<not> nl \<and> v = ?v) (nulls c' ! i) (elems c' ! i)"
  proof (rule for_rows_row [where I = "\<lambda>_. True" and W = "\<lambda>_. True", OF run i wf])
    fix x d x' d'
    assume "builtinWeekDaySig_row ds i (x, d) = Inr (x', d')"
      "i < length (nulls d)" "i < length (elems d)" "nulls d ! i = nulls c ! i"
    with nn nz show "True \<and> \<not> nulls d' ! i \<and> elems d' ! i = ?v"
      by (auto simp: builtinWeekDaySig_row_def IsNull_def SetElem_def split: if_splits sum.splits)
  qed (auto intro: WeekDaySig_row_frame)
  then show ?thesis by simp
qed

lemma DayNameSig_rows_at:
  assumes run: "for_rows (builtinDayNameSig_row b (\<lambda>i res (c :: int64 column). SetElem c i (of_nat res))
        (\<lambda>i c. SetNull c i True)) [0..<n] (ctx, c :: int64 column) = Inr (ctx', c')"
    and wf: "wf_col n c" and i: "i < n" and nn: "\<not> nulls c ! i"
    and nb: "\<not> nulls b ! i" and nz: "\<not> InvalidZero (elems b ! i)"
  shows "\<not> nulls c' ! i \<and> elems c' ! i = of_nat ((Weekday (core (elems b ! i)) + 6) mod 7)"
proof -
  let ?v = "of_nat ((Weekday (core (elems b ! i)) + 6) mod 7) :: int64"
  have "True \<and> (\<lambda>nl v. \<not> nl \<and> v = ?v) (nulls c' ! i) (elems c' ! i)"
  proof (rule for_rows_row [where I = "\<lambda>_. True" and W = "\<lambda>_. True", OF run i wf])
    fix x d x' d'
    assume "builtinDayNameSig_row b (\<lambda>i res (c :: int64 column). SetElem c i (of_nat res))
        (\<lambda>i c. SetNull c i True) i (x, d) = Inr (x', d')"
      "i < length (nulls d)" "i < length (elems d)" "nulls d ! i = nulls c ! i"
    with nn nb nz show "True \<and> \<not> nulls d' ! i \<and> elems d' ! i = ?v"
      by (auto simp: builtinDayNameSig_row_def Let_def IsNull_def SetElem_def
          split: if_splits sum.splits)
  qed (auto intro: DayNameSig_row_frame)
  then show ?thesis by simp
qed

lemma wf_col_Resize: "wf_col n (Resize z n r)"
  by (simp add: wf_col_def Resize_def)

lemma nulls_Resize: "i < n \<Longrightarrow> \<not> nulls (Resize z n r) ! i"
  by (simp add: Resize_def)

text \<open>
  C9: for a row whose date is non-null and not invalid, WEEKDAY and the index that DAYNAME
  computes are \<open>(Weekday d + 6) mod 7\<close>, a value from 0 to 6, where \<open>Weekday\<close> is the
  Sunday-first index: a Monday gives 0 and a Sunday 6.
\<close>

theorem weekday_monday_first:
  assumes "wf_col n b" and "i < n" and "\<not> nulls b ! i" and "\<not> InvalidZero (elems b ! i)"
  shows "(snd (builtinWeekDaySig_vecEvalInt ctx al n (Inr b) result) = Inr (ctx', res') \<longrightarrow>
            \<not> nulls res' ! i \<and>
            sint (elems res' ! i) = int ((Weekday (core (elems b ! i)) + 6) mod 7) \<and>
            0 \<le> sint (elems res' ! i) \<and> sint (elems res' ! i) \<le> 6 \<and>
            (Weekday (core (elems b ! i)) = 1 \<longrightarrow> elems res' ! i = 0) \<and>
            (Weekday (core (elems b ! i)) = 0 \<longrightarrow> elems res' ! i = 6)) \<and>
         (snd (builtinDayNameSig_vecEvalInt ctx al n (Inr b) result) = Inr (ctx'', res'') \<longrightarrow>
            \<not> nulls res'' ! i \<and>
            sint (elems res'' ! i) = int ((Weekday (core (elems b ! i)) + 6) mod 7) \<and>
            0 \<le> sint (elems res'' ! i) \<and> sint (elems res'' ! i) \<le> 6 \<and>
            (Weekday (core (elems b ! i)) = 1 \<longrightarrow> elems res'' ! i = 0) \<and>
            (Weekday (core (elems b ! i)) = 0 \<longrightarrow> elems res'' ! i = 6))"
proof -
  let ?w = "Weekday (core (elems b ! i))"
  let ?v = "of_nat ((?w + 6) mod 7) :: int64"
  have v: "sint ?v = int ((?w + 6) mod 7)" by (rule monday_first_index)
  have rng: "0 \<le> sint ?v \<and> sint ?v \<le> 6" unfolding v by simp
  have mon: "?w = 1 \<longrightarrow> ?v = 0" by simp
  have sun: "?w = 0 \<longrightarrow> ?v = 6" by simp
  have nz: "\<not> IsZero (elems b ! i)" using assms(4) InvalidZero_of_IsZero by blast
  show ?thesis
  proof (intro conjI impI)
    assume "snd (builtinWeekDaySig_vecEvalInt ctx al n (Inr b) result) = Inr (ctx', res')"
    then have run: "for_rows (builtinWeekDaySig_row (elems b)) [0..<n]
        (ctx, MergeNulls (Resize 0 n result) b) = Inr (ctx', res')"
      by (auto simp: builtinWeekDaySig_vecEvalInt_def split: sum.splits prod.splits)
    have r: "\<not> nulls res' ! i \<and> elems res' ! i = ?v"
      using WeekDaySig_rows_at [OF run wf_col_init [OF assms(1)] assms(2) _ nz] assms(1-3)
      by (simp add: nulls_init)
    from r show "\<not> nulls res' ! i" by simp
    from r v show "sint (elems res' ! i) = int ((?w + 6) mod 7)" by simp
    from r rng show "0 \<le> sint (elems res' ! i)" "sint (elems res' ! i) \<le> 6" by simp_all
    { assume "?w = 1" with r mon show "elems res' ! i = 0" by simp }
    { assume "?w = 0" with r sun show "elems res' ! i = 6" by simp }
  next
    assume "snd (builtinDayNameSig_vecEvalInt ctx al n (Inr b) result) = Inr (ctx'', res'')"
    then have run: "for_rows (builtinDayNameSig_row b (\<lambda>i res (c :: int64 column). SetElem c i (of_nat res))
        (\<lambda>i c. SetNull c i True)) [0..<n] (ctx, Resize 0 n result) = Inr (ctx'', res'')"
      by (auto simp: builtinDayNameSig_vecEvalInt_def builtinDayNameSig_vecEvalIndex_def
          split: sum.splits prod.splits)
    have r: "\<not> nulls res'' ! i \<and> elems res'' ! i = ?v"
      using DayNameSig_rows_at [OF run wf_col_Resize assms(2) nulls_Resize [OF assms(2)] assms(3,4)]
      by simp
    from r show "\<not> nulls res'' ! i" by simp
    from r v show "sint (elems res'' ! i) = int ((?w + 6) mod 7)" by simp
    from r rng show "0 \<le> sint (elems res'' ! i)" "sint (elems res'' ! i) \<le> 6" by simp_all
    { assume "?w = 1" with r mon show "elems res'' ! i = 0" by simp }
    { assume "?w = 0" with r sun show "elems res'' ! i = 6" by simp }
  qed
qed

lemma Weekday_2024_01_01: "Weekday (core date_2024_01_01) = 1"
  by (simp add: Weekday_def daynr_def daynr_jan1_def days_before_month_def date_2024_01_01_def
      FromDate_def)

subsection \<open>MAKEDATE\<close>

lemma sint_of_nat_small: "k < 2 ^ 63 \<Longrightarrow> sint (of_nat k :: int64) = int k"
proof -
  assume k: "k < 2 ^ 63"
  then have "uint (of_nat k :: int64) = int k"
    by (simp add: uint_nat unat_of_nat)
  moreover from this k have "uint (of_nat k :: int64) < 2 ^ 63" by simp
  ultimately show ?thesis using sint_small by simp
qed

lemma small_int64_is_of_nat:
  assumes "0 \<le> sint (y :: int64)" 
  shows "y = of_nat (nat (sint y))" and "nat (sint y) < 2 ^ 63"
proof -
  have lt: "sint y < 2 ^ 63" using sint_lt [of y] by simp
  then show b: "nat (sint y) < 2 ^ 63" using assms by (simp add: nat_less_iff)
  have "sint y = sint (of_nat (nat (sint y)) :: int64)"
    using sint_of_nat_small [OF b] assms by simp
  then show "y = of_nat (nat (sint y))" by (rule signed_word_eqI)
qed

lemma makedate_year_cases:
  assumes "\<not> y <s 0" and "\<not> 9999 <s y"
  shows "makedate_year y =
           (if sint y < 70 then nat (sint y) + 2000
            else if sint y < 100 then nat (sint y) + 1900 else nat (sint y))"
    and "100 \<le> makedate_year y \<and> makedate_year y \<le> 9999"
proof -
  let ?k = "nat (sint y)"
  have s: "0 \<le> sint y" "sint y \<le> 9999" using assms by (simp_all add: word_sless_alt)
  note yk = small_int64_is_of_nat [OF s(1)]
  have k: "?k \<le> 9999" using s by simp
  have a: "sint (y + 2000) = int (?k + 2000)"
  proof -
    have "y + 2000 = of_nat (?k + 2000)" by (subst yk(1)) simp
    moreover have "?k + 2000 < 2 ^ 63" using k by simp
    ultimately show ?thesis using sint_of_nat_small by metis
  qed
  have b: "sint (y + 1900) = int (?k + 1900)"
  proof -
    have "y + 1900 = of_nat (?k + 1900)" by (subst yk(1)) simp
    moreover have "?k + 1900 < 2 ^ 63" using k by simp
    ultimately show ?thesis using sint_of_nat_small by metis
  qed
  show c: "makedate_year y =
           (if sint y < 70 then ?k + 2000 else if sint y < 100 then ?k + 1900 else ?k)"
    using a b s by (simp add: makedate_year_def word_sless_alt nat_add_distrib)
  show "100 \<le> makedate_year y \<and> makedate_year y \<le> 9999"
    unfolding c using s by auto
qed

lemma daynr_jan1_ge: "365 * y \<le> daynr_jan1 y"
proof -
  have "(y - 1) div 100 \<le> (y - 1) div 4" by (rule div_100_le_4)
  then show ?thesis unfolding daynr_jan1_def by linarith
qed

lemma daynr_FromDate_jan1: "1 \<le> y \<Longrightarrow> daynr (FromDate y 1 1 0 0 0 0) = daynr_jan1 y"
  by (simp add: daynr_def FromDate_def days_before_month_def)

lemma daynr_ZeroDate: "daynr (core ZeroDate) = 0"
  by (simp add: ZeroDate_def daynr_def FromDate_def)

lemma makedate_start:
  assumes "100 \<le> y" and "y \<le> 9999"
  shows "daynr (FromDate y 1 1 0 0 0 0) = daynr_jan1 y"
    and "36500 \<le> daynr_jan1 y" and "daynr_jan1 y \<le> 3659634"
    and "TimestampDiff_DAY ZeroDate \<lparr>core = FromDate y 1 1 0 0 0 0, tp = TypeDate, fsp = 0\<rparr>
           = of_nat (daynr_jan1 y)"
    and "(of_nat (daynr_jan1 y) :: int64) \<noteq> 0"
proof -
  show d: "daynr (FromDate y 1 1 0 0 0 0) = daynr_jan1 y"
    by (rule daynr_FromDate_jan1) (use assms in simp)
  show lo: "36500 \<le> daynr_jan1 y" using daynr_jan1_ge [of y] assms by simp
  show hi: "daynr_jan1 y \<le> 3659634" using daynr_jan1_le [of y] assms by simp
  show "TimestampDiff_DAY ZeroDate \<lparr>core = FromDate y 1 1 0 0 0 0, tp = TypeDate, fsp = 0\<rparr>
           = of_nat (daynr_jan1 y)"
    using d by (simp add: TimestampDiff_DAY_def daynr_ZeroDate)
  have "unat (of_nat (daynr_jan1 y) :: int64) = daynr_jan1 y"
    using hi by (simp add: unat_of_nat)
  with lo show "(of_nat (daynr_jan1 y) :: int64) \<noteq> 0" by auto
qed

lemma makedate_daynr_uint:
  assumes "\<not> d \<le>s 0" and "36500 \<le> A" and "A \<le> 3659634"
  shows "unat (of_nat A + d - 1 :: int64) = A + nat (sint d) - 1"
proof -
  have s: "0 < sint d" using assms(1) by (simp add: word_sle_eq)
  then have s0: "0 \<le> sint d" by simp
  note dk = small_int64_is_of_nat [OF s0]
  let ?k = "nat (sint d)"
  have k: "1 \<le> ?k" using s by simp
  have "of_nat A + d - 1 = (of_nat (A + ?k - 1) :: int64)"
    using k by (subst dk(1)) simp
  moreover have "A + ?k - 1 < 2 ^ 64" using dk(2) assms(3) by simp
  ultimately show ?thesis by (simp add: unat_of_nat)
qed

lemma MakeDateSig_row_eq:
  "builtinMakeDateSig_row ys ds i (x, c) =
     Inr (x, if nulls c ! i then c
             else (case makedate (ys ! i) (ds ! i) of
                     None \<Rightarrow> SetNull c i True | Some r \<Rightarrow> SetElem c i r))"
proof (cases "nulls c ! i \<or> ds ! i \<le>s 0 \<or> ys ! i <s 0 \<or> 9999 <s ys ! i")
  case True
  then show ?thesis
    by (auto simp: builtinMakeDateSig_row_def makedate_def IsNull_def)
next
  case False
  then have g: "\<not> nulls c ! i" "\<not> ds ! i \<le>s 0" "\<not> ys ! i <s 0" "\<not> 9999 <s ys ! i" by simp_all
  let ?Y = "makedate_year (ys ! i)"
  note yr = makedate_year_cases(2) [OF g(3,4)]
  note st = makedate_start [of ?Y]
  have ts: "TimestampDiff_DAY ZeroDate \<lparr>core = FromDate ?Y 1 1 0 0 0 0, tp = TypeDate, fsp = 0\<rparr>
      = of_nat (daynr_jan1 ?Y)"
    using yr by (intro st(4)) simp_all
  have nz: "(of_nat (daynr_jan1 ?Y) :: int64) \<noteq> 0" using yr by (intro st(5)) simp_all
  have dn: "makedate_daynr (ys ! i) (ds ! i) = of_nat (daynr_jan1 ?Y) + ds ! i - 1"
    using st(1) yr by (simp add: makedate_daynr_def)
  show ?thesis
    using g ts nz
    by (simp add: builtinMakeDateSig_row_def makedate_def IsNull_def Let_def dn
        makedate_year_def [symmetric])
qed

lemma MakeDateSig_row_frame:
  "builtinMakeDateSig_row ys ds j (x, d) = Inr (x', d') \<Longrightarrow> j \<noteq> i \<Longrightarrow> same_row i d d'"
  by (auto simp: MakeDateSig_row_eq same_row_intros split: if_splits option.splits)

lemma MakeDateSig_rows:
  assumes wf: "wf_col n c" and i: "i < n" and nn: "\<not> nulls c ! i"
  shows "\<exists>res. for_rows (builtinMakeDateSig_row ys ds) [0..<n] (ctx, c) = Inr (ctx, res) \<and>
           (case makedate (ys ! i) (ds ! i) of
              None \<Rightarrow> nulls res ! i
            | Some r \<Rightarrow> \<not> nulls res ! i \<and> elems res ! i = r)"
proof -
  let ?body = "builtinMakeDateSig_row ys ds"
  have "\<exists>s'. for_rows ?body [0..<n] (ctx, c) = Inr s' \<and> fst s' = ctx"
  proof (rule for_rows_total [where I = "\<lambda>t. fst t = ctx"])
    fix j and t :: "sessionctx \<times> mtime column" assume "fst t = ctx"
    then show "\<exists>t'. ?body j t = Inr t' \<and> fst t' = ctx"
      by (cases t) (simp add: MakeDateSig_row_eq)
  qed simp
  then obtain res where run: "for_rows ?body [0..<n] (ctx, c) = Inr (ctx, res)"
    by (metis prod.collapse)
  let ?G = "\<lambda>nl v. case makedate (ys ! i) (ds ! i) of None \<Rightarrow> nl | Some r \<Rightarrow> \<not> nl \<and> v = r"
  have "True \<and> ?G (nulls res ! i) (elems res ! i)"
  proof (rule for_rows_row [where I = "\<lambda>_. True" and W = "\<lambda>_. True", OF run i wf])
    fix x d x' d'
    assume "?body i (x, d) = Inr (x', d')"
      "i < length (nulls d)" "i < length (elems d)" "nulls d ! i = nulls c ! i"
    with nn show "True \<and> ?G (nulls d' ! i) (elems d' ! i)"
      by (auto simp: MakeDateSig_row_eq SetNull_def SetElem_def split: option.splits)
  qed (auto intro: MakeDateSig_row_frame)
  with run show ?thesis by blast
qed

lemma IsZero_ZeroDate: "IsZero ZeroDate"
  by (simp add: IsZero_def ZeroDate_def FromDate_def)

lemma makedate_Some:
  assumes "makedate y d = Some r"
  shows "\<not> d \<le>s 0 \<and> \<not> y <s 0 \<and> \<not> 9999 <s y"
    and "r = TimeFromDays (makedate_daynr y d)"
    and "\<not> IsZero r \<and> year (core r) \<le> 9999 \<and> tp r = TypeDate"
    and "daynr (core r) = daynr (FromDate (makedate_year y) 1 1 0 0 0 0) + (nat (sint d) - 1)"
    and "1 \<le> month (core r) \<and> month (core r) \<le> 12 \<and> 1 \<le> day (core r) \<and>
         day (core r) \<le> days_in_month (year (core r)) (month (core r))"
proof -
  let ?n = "makedate_daynr y d"
  from assms show g: "\<not> d \<le>s 0 \<and> \<not> y <s 0 \<and> \<not> 9999 <s y"
    by (auto simp: makedate_def split: if_splits)
  from assms g show r: "r = TimeFromDays ?n"
    by (auto simp: makedate_def Let_def split: if_splits)
  from assms g r have nz: "\<not> IsZero r" and y: "year (core r) \<le> 9999"
    by (auto simp: makedate_def Let_def split: if_splits)
  from nz r IsZero_ZeroDate have n: "\<not> ?n <s 0" "366 \<le> unat ?n"
    and rd: "r = \<lparr>core = date_of_daynr (unat ?n), tp = TypeDate, fsp = 0\<rparr>"
    by (auto simp: TimeFromDays_def split: if_splits)
  from nz y rd show "\<not> IsZero r \<and> year (core r) \<le> 9999 \<and> tp r = TypeDate" by simp
  let ?Y = "makedate_year y"
  from g have yr: "100 \<le> ?Y" "?Y \<le> 9999" using makedate_year_cases(2) [of y] by simp_all
  note st = makedate_start [OF yr]
  have "?n = of_nat (daynr_jan1 ?Y) + d - 1" using st(1) by (simp add: makedate_daynr_def)
  with makedate_daynr_uint [of d "daynr_jan1 ?Y"] g st(2,3)
  have u: "unat ?n = daynr_jan1 ?Y + nat (sint d) - 1" by simp
  from g have "0 < sint d" by (simp add: word_sle_eq)
  then have d1: "1 \<le> nat (sint d)" by simp
  note rt = date_of_daynr_correct [OF n(2)]
  from rt(1) u d1 st(1) show "daynr (core r) = daynr (FromDate ?Y 1 1 0 0 0 0) + (nat (sint d) - 1)"
    by (simp add: rd)
  from rt(3,4) show "1 \<le> month (core r) \<and> month (core r) \<le> 12 \<and> 1 \<le> day (core r) \<and>
         day (core r) \<le> days_in_month (year (core r)) (month (core r))"
    by (simp add: rd)
qed

lemma makedate_None:
  "makedate y d = None \<longleftrightarrow>
     d \<le>s 0 \<or> y <s 0 \<or> 9999 <s y \<or> IsZero (TimeFromDays (makedate_daynr y d)) \<or>
     9999 < year (core (TimeFromDays (makedate_daynr y d)))"
  by (auto simp: makedate_def Let_def)

lemma MakeDateSig_vecEvalTime_rows:
  "length (lent al) + 2 \<le> limit al \<Longrightarrow>
   snd (builtinMakeDateSig_vecEvalTime ctx al n (Inr ys) (Inr ds) result) =
     for_rows (builtinMakeDateSig_row (elems ys) (elems ds)) [0..<n]
       (ctx, MergeNulls (MergeNulls (Resize ZeroDate n result) ys) ds)"
  by (simp add: builtinMakeDateSig_vecEvalTime_def get_def)

text \<open>
  C6: MAKEDATE never fails. For a row with both arguments non-null, the row is null when
  the day count is not positive or the year is outside 0 to 9999; otherwise a year below 70
  gets 2000 added and a year from 70 to 99 gets 1900, and the row is null when the date
  reached is the zero date or has a year above 9999; otherwise the row holds the calendar
  date whose day number is that of January 1 of the widened year plus the day count minus
  one.
\<close>

theorem makedate_rows:
  assumes "wf_col n ys" and "wf_col n ds" and "i < n" and "\<not> nulls ys ! i" and "\<not> nulls ds ! i"
    and "length (lent al) + 2 \<le> limit al"
  shows "\<exists>res. snd (builtinMakeDateSig_vecEvalTime ctx al n (Inr ys) (Inr ds) result) = Inr (ctx, res) \<and>
     (let y = elems ys ! i; d = elems ds ! i; ret = TimeFromDays (makedate_daynr y d) in
        (d \<le>s 0 \<or> y <s 0 \<or> 9999 <s y \<longrightarrow> nulls res ! i) \<and>
        (\<not> d \<le>s 0 \<and> \<not> y <s 0 \<and> \<not> 9999 <s y \<longrightarrow>
           makedate_year y =
             (if sint y < 70 then nat (sint y) + 2000
              else if sint y < 100 then nat (sint y) + 1900 else nat (sint y)) \<and>
           (IsZero ret \<or> 9999 < year (core ret) \<longrightarrow> nulls res ! i) \<and>
           (\<not> IsZero ret \<and> year (core ret) \<le> 9999 \<longrightarrow>
              \<not> nulls res ! i \<and> elems res ! i = ret \<and> tp ret = TypeDate \<and>
              daynr (core ret) = daynr (FromDate (makedate_year y) 1 1 0 0 0 0) + (nat (sint d) - 1) \<and>
              1 \<le> month (core ret) \<and> month (core ret) \<le> 12 \<and> 1 \<le> day (core ret) \<and>
              day (core ret) \<le> days_in_month (year (core ret)) (month (core ret)))))"
proof -
  let ?c = "MergeNulls (MergeNulls (Resize ZeroDate n result) ys) ds"
  let ?y = "elems ys ! i" and ?d = "elems ds ! i"
  let ?ret = "TimeFromDays (makedate_daynr ?y ?d)"
  have wf1: "wf_col n (MergeNulls (Resize ZeroDate n result) ys)" using assms(1) by (rule wf_col_init)
  have wf: "wf_col n ?c" using wf1 assms(2) by (rule wf_col_MergeNulls)
  have nn: "\<not> nulls ?c ! i"
    using nulls_MergeNulls [OF wf1 assms(2,3)] nulls_init [OF assms(1,3)] assms(4,5) by simp
  from MakeDateSig_rows [OF wf assms(3) nn, of "elems ys" "elems ds" ctx]
  obtain res where run: "for_rows (builtinMakeDateSig_row (elems ys) (elems ds)) [0..<n] (ctx, ?c) = Inr (ctx, res)"
    and row: "case makedate ?y ?d of None \<Rightarrow> nulls res ! i
              | Some r \<Rightarrow> \<not> nulls res ! i \<and> elems res ! i = r" by blast
  have a: "?d \<le>s 0 \<or> ?y <s 0 \<or> 9999 <s ?y \<longrightarrow> nulls res ! i"
    using row by (auto simp: makedate_def)
  have b: "makedate_year ?y =
             (if sint ?y < 70 then nat (sint ?y) + 2000
              else if sint ?y < 100 then nat (sint ?y) + 1900 else nat (sint ?y))"
    if "\<not> ?d \<le>s 0 \<and> \<not> ?y <s 0 \<and> \<not> 9999 <s ?y"
    using makedate_year_cases(1) [of ?y] that by simp
  have c: "IsZero ?ret \<or> 9999 < year (core ?ret) \<longrightarrow> nulls res ! i"
    using row makedate_None [of ?y ?d] by (auto split: option.splits)
  have d: "\<not> nulls res ! i \<and> elems res ! i = ?ret \<and> tp ?ret = TypeDate \<and>
      daynr (core ?ret) = daynr (FromDate (makedate_year ?y) 1 1 0 0 0 0) + (nat (sint ?d) - 1) \<and>
      1 \<le> month (core ?ret) \<and> month (core ?ret) \<le> 12 \<and> 1 \<le> day (core ?ret) \<and>
      day (core ?ret) \<le> days_in_month (year (core ?ret)) (month (core ?ret))"
    if h: "\<not> ?d \<le>s 0 \<and> \<not> ?y <s 0 \<and> \<not> 9999 <s ?y" "\<not> IsZero ?ret \<and> year (core ?ret) \<le> 9999"
  proof -
    from h have "makedate ?y ?d = Some ?ret" by (simp add: makedate_def Let_def)
    from makedate_Some [OF this] row \<open>makedate ?y ?d = Some ?ret\<close> show ?thesis by simp
  qed
  show ?thesis
    unfolding MakeDateSig_vecEvalTime_rows [OF assms(6)] Let_def
    using run a b c d by blast
qed

lemma makedate_2024_60: "TimeFromDays (makedate_daynr 2024 60) = date_2024_02_29"
  by (simp add: TimeFromDays_def makedate_daynr_def makedate_year_def daynr_def daynr_jan1_def
      days_before_month_def FromDate_def date_of_daynr_def walk_year.simps walk_month.simps
      days_in_year_def days_in_month_def leap_year_def Let_def date_2024_02_29_def
      word_sless_alt numeral_2_eq_2 [symmetric])

lemma makedate_example:
  "snd (builtinMakeDateSig_vecEvalTime ctx_default pool4 2 (Inr makedate_years) (Inr makedate_days)
      empty_times) = Inr (ctx_default, \<lparr>nulls = [False, True], elems = [date_2024_02_29, ZeroDate]\<rparr>)"
proof -
  have m0: "makedate 2024 60 = Some date_2024_02_29"
    by (simp add: makedate_def makedate_2024_60 word_sless_alt word_sle_eq Let_def
        date_2024_02_29_def IsZero_def FromDate_def)
  have m1: "makedate 2024 0 = None"
    by (simp add: makedate_def)
  show ?thesis
    by (simp add: builtinMakeDateSig_vecEvalTime_def MakeDateSig_row_eq m0 m1
        makedate_years_def makedate_days_def empty_times_def sample_defs eval_defs
        numeral_2_eq_2)
qed

text \<open>MAKEDATE(2024, 60) is 2024-02-29 and MAKEDATE(2024, 0) is null.\<close>

theorem makedate_rows_witness:
  "wf_col 2 makedate_years \<and> wf_col 2 makedate_days \<and> length (lent pool4) + 2 \<le> limit pool4 \<and>
   \<not> nulls makedate_years ! 0 \<and> \<not> nulls makedate_days ! 0 \<and>
   \<not> nulls makedate_years ! 1 \<and> \<not> nulls makedate_days ! 1 \<and>
   elems makedate_years ! 0 = 2024 \<and> elems makedate_days ! 0 = 60 \<and>
   elems makedate_years ! 1 = 2024 \<and> elems makedate_days ! 1 = 0 \<and>
   snd (builtinMakeDateSig_vecEvalTime ctx_default pool4 2 (Inr makedate_years) (Inr makedate_days)
      empty_times) = Inr (ctx_default, \<lparr>nulls = [False, True], elems = [date_2024_02_29, ZeroDate]\<rparr>) \<and>
   TimeFromDays (makedate_daynr 2024 60) = date_2024_02_29 \<and>
   daynr (core date_2024_02_29) = daynr (FromDate (makedate_year 2024) 1 1 0 0 0 0) + (nat (sint (60 :: int64)) - 1)"
proof -
  have wf: "wf_col 2 makedate_years" "wf_col 2 makedate_days"
    and al: "length (lent pool4) + 2 \<le> limit pool4"
    by (simp_all add: makedate_years_def makedate_days_def wf_col_def pool4_def)
  have rows: "\<not> nulls makedate_years ! 0" "\<not> nulls makedate_days ! 0"
    "\<not> nulls makedate_years ! 1" "\<not> nulls makedate_days ! 1"
    "elems makedate_years ! 0 = 2024" "elems makedate_days ! 0 = 60"
    "elems makedate_years ! 1 = 2024" "elems makedate_days ! 1 = 0"
    by (simp_all add: makedate_years_def makedate_days_def)
  have two: "(0::nat) < 2" "(1::nat) < 2" by simp_all
  note ev = makedate_example
  note ret = makedate_2024_60
  have g: "\<not> (60 :: int64) \<le>s 0 \<and> \<not> (2024 :: int64) <s 0 \<and> \<not> 9999 <s (2024 :: int64)"
    by (simp add: word_sless_alt word_sle_eq)
  have nzr: "\<not> IsZero date_2024_02_29 \<and> year (core date_2024_02_29) \<le> 9999"
    by (simp add: date_2024_02_29_def IsZero_def FromDate_def)
  from makedate_rows [OF wf two(1) rows(1,2) al, of ctx_default empty_times]
  have "daynr (core date_2024_02_29) =
      daynr (FromDate (makedate_year 2024) 1 1 0 0 0 0) + (nat (sint (60 :: int64)) - 1)"
    unfolding ev Let_def rows ret using g nzr by blast
  with wf al rows ev ret show ?thesis by (intro conjI)
qed

text \<open>2024-01-01 is a Monday: WEEKDAY and the DAYNAME index give 0.\<close>

theorem weekday_monday_first_witness:
  "wf_col 1 col_2024_01_01 \<and> \<not> nulls col_2024_01_01 ! 0 \<and>
   \<not> InvalidZero (elems col_2024_01_01 ! 0) \<and>
   Weekday (core (elems col_2024_01_01 ! 0)) = 1 \<and>
   snd (builtinWeekDaySig_vecEvalInt ctx_default pool4 1 (Inr col_2024_01_01) empty_col)
     = Inr (ctx_default, \<lparr>nulls = [False], elems = [0]\<rparr>) \<and>
   snd (builtinDayNameSig_vecEvalInt ctx_default pool4 1 (Inr col_2024_01_01) empty_col)
     = Inr (ctx_default, \<lparr>nulls = [False], elems = [0]\<rparr>) \<and>
   sint (elems \<lparr>nulls = [False], elems = [0 :: int64]\<rparr> ! 0) = int ((1 + 6) mod 7)"
proof -
  have h: "wf_col 1 col_2024_01_01" "(0::nat) < 1" "\<not> nulls col_2024_01_01 ! 0"
    "\<not> InvalidZero (elems col_2024_01_01 ! 0)"
    by (simp_all add: col_2024_01_01_def wf_col_def InvalidZero_def date_2024_01_01_def FromDate_def)
  have w: "Weekday (core (elems col_2024_01_01 ! 0)) = 1"
    using Weekday_2024_01_01 by (simp add: col_2024_01_01_def)
  have e1: "snd (builtinWeekDaySig_vecEvalInt ctx_default pool4 1 (Inr col_2024_01_01) empty_col)
     = Inr (ctx_default, \<lparr>nulls = [False], elems = [0]\<rparr>)"
    using Weekday_2024_01_01
    by (simp add: builtinWeekDaySig_vecEvalInt_def builtinWeekDaySig_row_def col_2024_01_01_def
        ctx_default_def empty_col_def pool4_def eval_defs)
       (simp add: date_2024_01_01_def FromDate_def)
  have e2: "snd (builtinDayNameSig_vecEvalInt ctx_default pool4 1 (Inr col_2024_01_01) empty_col)
     = Inr (ctx_default, \<lparr>nulls = [False], elems = [0]\<rparr>)"
    using Weekday_2024_01_01
    by (simp add: builtinDayNameSig_vecEvalInt_def builtinDayNameSig_vecEvalIndex_def
        builtinDayNameSig_row_def col_2024_01_01_def
        ctx_default_def empty_col_def pool4_def eval_defs)
       (simp add: date_2024_01_01_def FromDate_def)
  from weekday_monday_first [OF h, of ctx_default pool4 empty_col] e1 w
  have "sint (elems \<lparr>nulls = [False], elems = [0 :: int64]\<rparr> ! 0) = int ((1 + 6) mod 7)"
    by simp
  with h w e1 e2 show ?thesis by (intro conjI)
qed

end
